theory Spec2Isabelle
  imports Main
begin

section \<open>Data model of biblioteca.py\<close>

text \<open>
  Python objects are shared by reference: the same \<open>Libro\<close> may sit in the catalog
  several times and is also reached from every \<open>Prestamo\<close> made for it. Objects of the
  classes \<open>Libro\<close> and \<open>Usuario\<close> therefore live in two object stores, and a reference
  is the position of the object in its store. Objects are never freed.

  A \<open>datetime\<close> is a number of microseconds on the naive local clock, the resolution of
  Python's \<open>datetime\<close>; the clock reading \<open>datetime.now()\<close> is an argument of every
  operation that reads it, and nothing forces successive readings to grow.

  A \<open>str\<close> is the list of its Unicode code points.
\<close>

type_synonym ref = nat
type_synonym datetime = int
type_synonym str = "nat list"

text \<open>The \<open>str\<close> of a literal written in ASCII.\<close>

definition codigos :: "string \<Rightarrow> str" where
  "codigos cs = map of_char cs"

record Libro =
  id_libro :: int
  titulo :: str
  autor :: str
  disponible :: bool

record Usuario =
  id_usuario :: int
  nombre :: str
  multas :: int

record Prestamo =
  usuario :: ref
  libro :: ref
  fecha_prestamo :: datetime
  devuelto :: bool
  fecha_devolucion :: "datetime option"

text \<open>
  The state: both object stores, the list \<open>repo_libros.libros\<close> of the repository
  (field \<open>libros\<close>), and the lists \<open>usuarios\<close> and \<open>prestamos\<close> of \<open>Biblioteca\<close>.
  A \<open>Prestamo\<close> is created by \<open>prestar_libro\<close> only and appended once, so the list
  holds the loan objects themselves.
\<close>

record Biblioteca =
  libro_objs :: "Libro list"
  usuario_objs :: "Usuario list"
  libros :: "ref list"
  usuarios :: "ref list"
  prestamos :: "Prestamo list"

datatype error = TypeError

definition DIAS_MAXIMO :: int where
  "DIAS_MAXIMO = 7"

definition MULTA_POR_DIA :: int where
  "MULTA_POR_DIA = 500"

definition microsegundos_por_dia :: int where
  "microsegundos_por_dia = 86400000000"

text \<open>\<open>timedelta.days\<close> of a difference of two datetimes: the floor of whole days.\<close>

definition timedelta_days :: "int \<Rightarrow> int" where
  "timedelta_days d = d div microsegundos_por_dia"

section \<open>Constructors\<close>

definition biblioteca_vacia :: Biblioteca where
  "biblioteca_vacia =
     \<lparr>libro_objs = [], usuario_objs = [], libros = [], usuarios = [], prestamos = []\<rparr>"

definition Libro_init :: "int \<Rightarrow> str \<Rightarrow> str \<Rightarrow> bool \<Rightarrow> Biblioteca \<Rightarrow> ref \<times> Biblioteca" where
  "Libro_init i t a d s =
     (length (libro_objs s),
      s\<lparr>libro_objs := libro_objs s @ [\<lparr>id_libro = i, titulo = t, autor = a, disponible = d\<rparr>]\<rparr>)"

definition Usuario_init :: "int \<Rightarrow> str \<Rightarrow> Biblioteca \<Rightarrow> ref \<times> Biblioteca" where
  "Usuario_init i n s =
     (length (usuario_objs s),
      s\<lparr>usuario_objs := usuario_objs s @ [\<lparr>id_usuario = i, nombre = n, multas = 0\<rparr>]\<rparr>)"

definition Prestamo_init :: "ref \<Rightarrow> ref \<Rightarrow> datetime option \<Rightarrow> datetime \<Rightarrow> Prestamo" where
  "Prestamo_init u l fp now =
     \<lparr>usuario = u, libro = l,
      fecha_prestamo = (case fp of Some t \<Rightarrow> t | None \<Rightarrow> now),
      devuelto = False, fecha_devolucion = None\<rparr>"

section \<open>Prestamo\<close>

definition devolver :: "datetime \<Rightarrow> Prestamo \<Rightarrow> Libro list \<Rightarrow> Prestamo \<times> Libro list" where
  "devolver now p objs =
     (p\<lparr>devuelto := True, fecha_devolucion := Some now\<rparr>,
      objs[libro p := (objs ! libro p)\<lparr>disponible := True\<rparr>])"

definition calcular_multa :: "datetime \<Rightarrow> Prestamo \<Rightarrow> error + int" where
  "calcular_multa now p =
     (case (if \<not> devuelto p then Inr (timedelta_days (now - fecha_prestamo p))
            else (case fecha_devolucion p of
                    None \<Rightarrow> Inl TypeError
                  | Some fd \<Rightarrow> Inr (timedelta_days (fd - fecha_prestamo p)))) of
        Inl e \<Rightarrow> Inl e
      | Inr dias_prestados \<Rightarrow>
          if dias_prestados > DIAS_MAXIMO
          then Inr ((dias_prestados - DIAS_MAXIMO) * MULTA_POR_DIA)
          else Inr 0)"

section \<open>RepositorioLibrosEnMemoria\<close>

text \<open>
  \<open>str.lower\<close> as the interpreter computes it. Each code point is replaced by its
  full lowercase mapping in the Unicode character database, which may be several code
  points. The capital sigma U+03A3 (931) alone depends on its neighbours: it becomes
  the final sigma U+03C2 (962) when a cased character stands before it, skipping
  case-ignorable ones, and no cased character stands after it in the same way; it
  becomes U+03C3 (963) otherwise.

  The first 256 entries of the lowercase mapping are written out: the letters A to Z
  and the Latin-1 capitals 192 to 222 other than the multiplication sign 215 move up
  by 32. The rest of the database is a parameter: the lowercase mapping of the other
  code points and the properties Cased and Case_Ignorable.
\<close>

record unicode_db =
  ToLowerFull :: "nat \<Rightarrow> nat list"
  IsCased :: "nat \<Rightarrow> bool"
  IsCaseIgnorable :: "nat \<Rightarrow> bool"

definition minuscula_latin1 :: "nat \<Rightarrow> nat" where
  "minuscula_latin1 c =
     (if (65 \<le> c \<and> c \<le> 90) \<or> (192 \<le> c \<and> c \<le> 222 \<and> c \<noteq> 215) then c + 32 else c)"

text \<open>\<open>antes\<close> is the text before the sigma, nearest code point first; \<open>despues\<close>
  is the text after it.\<close>

definition handle_capital_sigma :: "unicode_db \<Rightarrow> str \<Rightarrow> str \<Rightarrow> nat" where
  "handle_capital_sigma db antes despues =
     (if (case dropWhile (IsCaseIgnorable db) antes of [] \<Rightarrow> False | c # _ \<Rightarrow> IsCased db c)
         \<and> (case dropWhile (IsCaseIgnorable db) despues of [] \<Rightarrow> True | c # _ \<Rightarrow> \<not> IsCased db c)
      then 962 else 963)"

definition lower_ucs4 :: "unicode_db \<Rightarrow> str \<Rightarrow> nat \<Rightarrow> str \<Rightarrow> str" where
  "lower_ucs4 db antes c despues =
     (if c = 931 then [handle_capital_sigma db antes despues]
      else if c < 256 then [minuscula_latin1 c]
      else ToLowerFull db c)"

fun do_lower :: "unicode_db \<Rightarrow> str \<Rightarrow> str \<Rightarrow> str" where
  "do_lower db antes [] = []"
| "do_lower db antes (c # despues) =
     lower_ucs4 db antes c despues @ do_lower db (c # antes) despues"

definition lower :: "unicode_db \<Rightarrow> str \<Rightarrow> str" where
  "lower db s = do_lower db [] s"

text \<open>\<open>sub in s\<close> on strings: \<open>sub\<close> occurs in \<open>s\<close> as a contiguous piece.\<close>

fun str_in :: "str \<Rightarrow> str \<Rightarrow> bool" where
  "str_in sub [] = (sub = [])"
| "str_in sub (c # cs) = (take (length sub) (c # cs) = sub \<or> str_in sub cs)"

definition agregar_libro :: "ref \<Rightarrow> Biblioteca \<Rightarrow> Biblioteca" where
  "agregar_libro l s = s\<lparr>libros := libros s @ [l]\<rparr>"

definition buscar_libro :: "unicode_db \<Rightarrow> str \<Rightarrow> Biblioteca \<Rightarrow> ref list" where
  "buscar_libro db criterio s =
     filter (\<lambda>l. str_in (lower db criterio) (lower db (titulo (libro_objs s ! l)))
               \<or> str_in (lower db criterio) (lower db (autor (libro_objs s ! l))))
            (libros s)"

section \<open>Biblioteca\<close>

definition registrar_usuario :: "ref \<Rightarrow> Biblioteca \<Rightarrow> Biblioteca" where
  "registrar_usuario u s = s\<lparr>usuarios := usuarios s @ [u]\<rparr>"

text \<open>The position of the first element that satisfies \<open>P\<close>, as \<open>next\<close> over a
  generator finds it.\<close>

fun first_index :: "('a \<Rightarrow> bool) \<Rightarrow> 'a list \<Rightarrow> nat option" where
  "first_index P [] = None"
| "first_index P (x # xs) = (if P x then Some 0 else map_option Suc (first_index P xs))"

definition prestar_libro :: "datetime \<Rightarrow> int \<Rightarrow> int \<Rightarrow> Biblioteca \<Rightarrow> Prestamo option \<times> Biblioteca" where
  "prestar_libro now id_u id_l s =
     (case find (\<lambda>u. id_usuario (usuario_objs s ! u) = id_u) (usuarios s) of
        None \<Rightarrow> (None, s)
      | Some u \<Rightarrow>
          (case find (\<lambda>l. id_libro (libro_objs s ! l) = id_l \<and> disponible (libro_objs s ! l))
                     (libros s) of
             None \<Rightarrow> (None, s)
           | Some l \<Rightarrow>
               (let prestamo = Prestamo_init u l None now
                in (Some prestamo,
                    s\<lparr>libro_objs := (libro_objs s)[l := (libro_objs s ! l)\<lparr>disponible := False\<rparr>],
                      prestamos := prestamos s @ [prestamo]\<rparr>))))"

definition prestamo_pendiente :: "Biblioteca \<Rightarrow> int \<Rightarrow> int \<Rightarrow> Prestamo \<Rightarrow> bool" where
  "prestamo_pendiente s id_u id_l p \<longleftrightarrow>
     id_usuario (usuario_objs s ! usuario p) = id_u
     \<and> id_libro (libro_objs s ! libro p) = id_l \<and> \<not> devuelto p"

definition devolver_libro :: "datetime \<Rightarrow> int \<Rightarrow> int \<Rightarrow> Biblioteca \<Rightarrow> (error + int) \<times> Biblioteca" where
  "devolver_libro now id_u id_l s =
     (case first_index (prestamo_pendiente s id_u id_l) (prestamos s) of
        None \<Rightarrow> (Inr 0, s)
      | Some i \<Rightarrow>
          (let (prestamo, objs) = devolver now (prestamos s ! i) (libro_objs s);
               s1 = s\<lparr>libro_objs := objs, prestamos := (prestamos s)[i := prestamo]\<rparr>
           in case calcular_multa now prestamo of
                Inl e \<Rightarrow> (Inl e, s1)
              | Inr multa \<Rightarrow>
                  (Inr multa,
                   s1\<lparr>usuario_objs := (usuario_objs s1)[usuario prestamo :=
                         (usuario_objs s1 ! usuario prestamo)
                           \<lparr>multas := multas (usuario_objs s1 ! usuario prestamo) + multa\<rparr>]\<rparr>)))"

section \<open>Runs of operations\<close>

text \<open>
  What a caller can do with the classes: build a \<open>Usuario\<close> or a \<open>Libro\<close>, hand an
  object it holds to \<open>registrar_usuario\<close> or \<open>agregar_libro\<close> (any number of times),
  search, lend and return. A reference to an object that was never built is not a value
  a caller can hold, so such a step has no outcome.
\<close>

datatype operacion =
    NuevoUsuario int str
  | NuevoLibro int str str bool
  | RegistrarUsuario ref
  | AgregarLibro ref
  | BuscarLibro str
  | PrestarLibro datetime int int
  | DevolverLibro datetime int int

fun ejecutar :: "operacion \<Rightarrow> Biblioteca \<Rightarrow> Biblioteca option" where
  "ejecutar (NuevoUsuario i n) s = Some (snd (Usuario_init i n s))"
| "ejecutar (NuevoLibro i t a d) s = Some (snd (Libro_init i t a d s))"
| "ejecutar (RegistrarUsuario u) s =
     (if u < length (usuario_objs s) then Some (registrar_usuario u s) else None)"
| "ejecutar (AgregarLibro l) s =
     (if l < length (libro_objs s) then Some (agregar_libro l s) else None)"
| "ejecutar (BuscarLibro c) s = Some s"
| "ejecutar (PrestarLibro now id_u id_l) s = Some (snd (prestar_libro now id_u id_l s))"
| "ejecutar (DevolverLibro now id_u id_l) s = Some (snd (devolver_libro now id_u id_l s))"

fun ejecutar_todas :: "operacion list \<Rightarrow> Biblioteca \<Rightarrow> Biblioteca option" where
  "ejecutar_todas [] s = Some s"
| "ejecutar_todas (x # xs) s =
     (case ejecutar x s of None \<Rightarrow> None | Some s' \<Rightarrow> ejecutar_todas xs s')"

text \<open>Every reference held by the library points to an object that exists.\<close>

definition bien_formada :: "Biblioteca \<Rightarrow> bool" where
  "bien_formada s \<longleftrightarrow>
     (\<forall>l \<in> set (libros s). l < length (libro_objs s))
     \<and> (\<forall>u \<in> set (usuarios s). u < length (usuario_objs s))
     \<and> (\<forall>p \<in> set (prestamos s).
          usuario p < length (usuario_objs s) \<and> libro p < length (libro_objs s))"

section \<open>Notions used to state the properties\<close>

text \<open>The date a fine is measured to: the return date of a closed loan, the clock
  reading for an active one.\<close>

definition fecha_referencia :: "datetime \<Rightarrow> Prestamo \<Rightarrow> datetime option" where
  "fecha_referencia now p = (if devuelto p then fecha_devolucion p else Some now)"

text \<open>The fine of a loan returned at \<open>now\<close>, in terms of its whole days.\<close>

definition multa_al_devolver :: "datetime \<Rightarrow> Prestamo \<Rightarrow> int" where
  "multa_al_devolver now p =
     (let k = timedelta_days (now - fecha_prestamo p) in if k > 7 then (k - 7) * 500 else 0)"

text \<open>No catalog book with the id is available.\<close>

definition sin_disponible :: "int \<Rightarrow> Biblioteca \<Rightarrow> bool" where
  "sin_disponible id_l s \<longleftrightarrow>
     (\<forall>l \<in> set (libros s). id_libro (libro_objs s ! l) = id_l \<longrightarrow> \<not> disponible (libro_objs s ! l))"

text \<open>Operations that neither return a book with the id nor add to the catalog a book
  with the id that is available. A call of \<open>devolver_libro\<close> with the id that finds no
  loan to close returns no book.\<close>

fun mantiene :: "int \<Rightarrow> Biblioteca \<Rightarrow> operacion \<Rightarrow> bool" where
  "mantiene id_l s (DevolverLibro now id_u b) =
     (b \<noteq> id_l \<or> first_index (prestamo_pendiente s id_u b) (prestamos s) = None)"
| "mantiene id_l s (AgregarLibro l) =
     (id_libro (libro_objs s ! l) \<noteq> id_l \<or> \<not> disponible (libro_objs s ! l))"
| "mantiene id_l s x = True"

text \<open>A run made of such operations only.\<close>

fun ejecutar_sin_devolver :: "int \<Rightarrow> operacion list \<Rightarrow> Biblioteca \<Rightarrow> Biblioteca option" where
  "ejecutar_sin_devolver id_l [] s = Some s"
| "ejecutar_sin_devolver id_l (x # xs) s =
     (if mantiene id_l s x
      then (case ejecutar x s of None \<Rightarrow> None | Some s' \<Rightarrow> ejecutar_sin_devolver id_l xs s')
      else None)"

text \<open>Every loan that is not returned holds a book that is not available, and no two
  such loans hold the same book record.\<close>

definition invariante :: "Biblioteca \<Rightarrow> bool" where
  "invariante s \<longleftrightarrow>
     bien_formada s
     \<and> (\<forall>i < length (prestamos s).
          \<not> devuelto (prestamos s ! i) \<longrightarrow> \<not> disponible (libro_objs s ! libro (prestamos s ! i)))
     \<and> (\<forall>i < length (prestamos s). \<forall>j < length (prestamos s).
          \<not> devuelto (prestamos s ! i) \<and> \<not> devuelto (prestamos s ! j)
          \<and> libro (prestamos s ! i) = libro (prestamos s ! j) \<longrightarrow> i = j)"

text \<open>The letters below 256, each capital with its small letter: A to Z with a to z,
  and the Latin-1 capitals 192 to 214 and 216 to 222 with 224 to 246 and 248 to 254.\<close>

definition pares_de_letras :: "(nat \<times> nat) list" where
  "pares_de_letras =
     zip ([65..<91] @ [192..<215] @ [216..<223]) ([97..<123] @ [224..<247] @ [248..<255])"

text \<open>Two code points are the same up to case when they are equal or are the capital
  and the small form of one letter.\<close>

definition mismo_caracter :: "nat \<Rightarrow> nat \<Rightarrow> bool" where
  "mismo_caracter a b \<longleftrightarrow>
     a = b \<or> (a, b) \<in> set pares_de_letras \<or> (b, a) \<in> set pares_de_letras"

text \<open>The query is a case-insensitive substring of \<open>t\<close>: some contiguous piece of \<open>t\<close>,
  as long as the query, equals it code point by code point up to case.\<close>

definition subcadena_sin_mayusculas :: "str \<Rightarrow> str \<Rightarrow> bool" where
  "subcadena_sin_mayusculas q t \<longleftrightarrow>
     (\<exists>i \<le> length t. list_all2 mismo_caracter q (take (length q) (drop i t)))"

text \<open>The books handed to \<open>agregar_libro\<close> in a run, in the order of the calls.\<close>

fun agregados :: "operacion list \<Rightarrow> ref list" where
  "agregados [] = []"
| "agregados (AgregarLibro l # xs) = l # agregados xs"
| "agregados (x # xs) = agregados xs"

section \<open>Example libraries\<close>

definition diez_dias :: datetime where
  "diez_dias = 864000000000"

text \<open>A closed loan, returned ten days and five microseconds after it was made.\<close>

definition prestamo_ejemplo :: Prestamo where
  "prestamo_ejemplo = \<lparr>usuario = 0, libro = 0, fecha_prestamo = 1000,
     devuelto = True, fecha_devolucion = Some (1000 + 10 * 86400000000 + 5)\<rparr>"

text \<open>An active loan dated ten days after the clock reading 0.\<close>

definition prestamo_adelantado :: Prestamo where
  "prestamo_adelantado =
     \<lparr>usuario = 0, libro = 0, fecha_prestamo = diez_dias, devuelto = False, fecha_devolucion = None\<rparr>"

text \<open>One user and one book, built and registered.\<close>

definition operaciones_ejemplo :: "operacion list" where
  "operaciones_ejemplo =
     [NuevoUsuario 2 (codigos ''Sebastian''), RegistrarUsuario 0,
      NuevoLibro 30 (codigos ''1984'') (codigos ''George Orwell'') True, AgregarLibro 0]"

definition estado_ejemplo :: Biblioteca where
  "estado_ejemplo =
     \<lparr>libro_objs = [\<lparr>id_libro = 30, titulo = (codigos ''1984''), autor = (codigos ''George Orwell''), disponible = True\<rparr>],
      usuario_objs = [\<lparr>id_usuario = 2, nombre = (codigos ''Sebastian''), multas = 0\<rparr>],
      libros = [0], usuarios = [0], prestamos = []\<rparr>"

text \<open>The same library after user 2 borrowed book 30 at clock reading 0.\<close>

definition estado_prestado :: Biblioteca where
  "estado_prestado =
     \<lparr>libro_objs = [\<lparr>id_libro = 30, titulo = (codigos ''1984''), autor = (codigos ''George Orwell''), disponible = False\<rparr>],
      usuario_objs = [\<lparr>id_usuario = 2, nombre = (codigos ''Sebastian''), multas = 0\<rparr>],
      libros = [0], usuarios = [0],
      prestamos = [\<lparr>usuario = 0, libro = 0, fecha_prestamo = 0, devuelto = False,
                    fecha_devolucion = None\<rparr>]\<rparr>"

text \<open>A second book record with the same id 30 is added to the catalog.\<close>

definition operaciones_dos_ejemplares :: "operacion list" where
  "operaciones_dos_ejemplares =
     operaciones_ejemplo @ [NuevoLibro 30 (codigos ''1984'') (codigos ''George Orwell'') True, AgregarLibro 1]"

definition estado_dos_ejemplares :: Biblioteca where
  "estado_dos_ejemplares =
     \<lparr>libro_objs = [\<lparr>id_libro = 30, titulo = (codigos ''1984''), autor = (codigos ''George Orwell''), disponible = True\<rparr>,
                    \<lparr>id_libro = 30, titulo = (codigos ''1984''), autor = (codigos ''George Orwell''), disponible = True\<rparr>],
      usuario_objs = [\<lparr>id_usuario = 2, nombre = (codigos ''Sebastian''), multas = 0\<rparr>],
      libros = [0, 1], usuarios = [0], prestamos = []\<rparr>"

text \<open>Both records with id 30 on loan to user 2 since clock reading 0.\<close>

definition estado_dos_prestamos :: Biblioteca where
  "estado_dos_prestamos =
     \<lparr>libro_objs = [\<lparr>id_libro = 30, titulo = (codigos ''1984''), autor = (codigos ''George Orwell''), disponible = False\<rparr>,
                    \<lparr>id_libro = 30, titulo = (codigos ''1984''), autor = (codigos ''George Orwell''), disponible = False\<rparr>],
      usuario_objs = [\<lparr>id_usuario = 2, nombre = (codigos ''Sebastian''), multas = 0\<rparr>],
      libros = [0, 1], usuarios = [0],
      prestamos = [\<lparr>usuario = 0, libro = 0, fecha_prestamo = 0, devuelto = False,
                     fecha_devolucion = None\<rparr>,
                   \<lparr>usuario = 0, libro = 1, fecha_prestamo = 0, devuelto = False,
                     fecha_devolucion = None\<rparr>]\<rparr>"

text \<open>
  A piece of the Unicode character database, right on the Greek letters alpha to omega,
  capital (913 to 929 and 931 to 937) and small (945 to 969): each capital has the small
  letter 32 above it as its lowercase mapping, the letters are cased, and none of them
  is case-ignorable. The examples read it at these letters only.
\<close>

definition ucd_griego :: unicode_db where
  "ucd_griego =
     \<lparr>ToLowerFull = (\<lambda>c. if (913 \<le> c \<and> c \<le> 929) \<or> (931 \<le> c \<and> c \<le> 937) then [c + 32] else [c]),
      IsCased = (\<lambda>c. (913 \<le> c \<and> c \<le> 929) \<or> (931 \<le> c \<and> c \<le> 937) \<or> (945 \<le> c \<and> c \<le> 969)),
      IsCaseIgnorable = (\<lambda>c. False)\<rparr>"

text \<open>A catalog with one book, titled with the Greek capitals omicron, delta, omicron,
  sigma (927, 916, 927, 931).\<close>

definition estado_griego :: Biblioteca where
  "estado_griego =
     \<lparr>libro_objs = [\<lparr>id_libro = 1, titulo = [927, 916, 927, 931], autor = codigos ''anon'',
                     disponible = True\<rparr>],
      usuario_objs = [], libros = [0], usuarios = [], prestamos = []\<rparr>"

section \<open>Evaluating the examples\<close>

lemmas operaciones_defs =
  Usuario_init_def Libro_init_def registrar_usuario_def agregar_libro_def
  prestar_libro_def devolver_libro_def devolver_def Prestamo_init_def
  prestamo_pendiente_def biblioteca_vacia_def Let_def

lemma ejecutar_ejemplo: "ejecutar_todas operaciones_ejemplo biblioteca_vacia = Some estado_ejemplo"
  by (simp add: operaciones_ejemplo_def estado_ejemplo_def operaciones_defs)

lemma ejecutar_prestado:
  "ejecutar_todas (operaciones_ejemplo @ [PrestarLibro 0 2 30]) biblioteca_vacia = Some estado_prestado"
  by (simp add: operaciones_ejemplo_def estado_prestado_def operaciones_defs)

lemma ejecutar_dos_ejemplares:
  "ejecutar_todas operaciones_dos_ejemplares biblioteca_vacia = Some estado_dos_ejemplares"
  by (simp add: operaciones_dos_ejemplares_def operaciones_ejemplo_def estado_dos_ejemplares_def
        operaciones_defs)

lemma bien_formada_ejemplo: "bien_formada estado_ejemplo"
  by (simp add: bien_formada_def estado_ejemplo_def)

lemma bien_formada_prestado: "bien_formada estado_prestado"
  by (simp add: bien_formada_def estado_prestado_def)

lemma prestar_ejemplo: "prestar_libro 0 2 30 estado_ejemplo = (Some (Prestamo_init 0 0 None 0), estado_prestado)"
  by (simp add: estado_ejemplo_def estado_prestado_def operaciones_defs)

section \<open>The fine\<close>

lemma timedelta_days_floor:
  "k * microsegundos_por_dia \<le> d \<Longrightarrow> d < (k + 1) * microsegundos_por_dia \<Longrightarrow> timedelta_days d = k"
proof -
  assume a: "k * microsegundos_por_dia \<le> d" and b: "d < (k + 1) * microsegundos_por_dia"
  have "d = microsegundos_por_dia * k + (d - k * microsegundos_por_dia)"
    by simp
  moreover have "0 \<le> d - k * microsegundos_por_dia"
    using a by simp
  moreover have "d - k * microsegundos_por_dia < microsegundos_por_dia"
    using b by (simp add: algebra_simps)
  ultimately show ?thesis
    unfolding timedelta_days_def by (rule int_div_pos_eq)
qed

lemma calcular_multa_nonneg: "calcular_multa now p = Inr m \<Longrightarrow> 0 \<le> m"
  by (auto simp: calcular_multa_def DIAS_MAXIMO_def MULTA_POR_DIA_def
           split: if_splits option.splits)

lemma calcular_multa_pendiente:
  "\<not> devuelto p \<Longrightarrow> calcular_multa now p =
     Inr (if timedelta_days (now - fecha_prestamo p) > 7
          then (timedelta_days (now - fecha_prestamo p) - 7) * 500 else 0)"
  by (simp add: calcular_multa_def DIAS_MAXIMO_def MULTA_POR_DIA_def)

lemma calcular_multa_devuelto:
  "devuelto p \<Longrightarrow> fecha_devolucion p = Some fd \<Longrightarrow> calcular_multa now p =
     Inr (if timedelta_days (fd - fecha_prestamo p) > 7
          then (timedelta_days (fd - fecha_prestamo p) - 7) * 500 else 0)"
  by (simp add: calcular_multa_def DIAS_MAXIMO_def MULTA_POR_DIA_def)

lemma multa_al_devolver_nonneg: "0 \<le> multa_al_devolver now p"
  by (simp add: multa_al_devolver_def Let_def)

lemma calcular_multa_tras_devolver:
  "calcular_multa t (p\<lparr>devuelto := True, fecha_devolucion := Some now\<rparr>) = Inr (multa_al_devolver now p)"
  by (simp add: calcular_multa_devuelto multa_al_devolver_def Let_def)

text \<open>
  C2. With the elapsed whole days \<open>k\<close> (the floor: \<open>k\<close> days have passed between the
  loan date and the reference date and \<open>k + 1\<close> have not), the fine is
  \<open>(k - 7) * 500\<close> when \<open>k > 7\<close> and 0 otherwise; so 1500 at day 10, 0 up to day 7
  and 500 at day 8.
\<close>

theorem calcular_multa_por_dias:
  assumes "fecha_referencia now p = Some r"
    and "k * microsegundos_por_dia \<le> r - fecha_prestamo p"
    and "r - fecha_prestamo p < (k + 1) * microsegundos_por_dia"
  shows "calcular_multa now p = Inr (if k > 7 then (k - 7) * 500 else 0)
         \<and> (k = 10 \<longrightarrow> calcular_multa now p = Inr 1500)
         \<and> (k \<le> 7 \<longrightarrow> calcular_multa now p = Inr 0)
         \<and> (k = 8 \<longrightarrow> calcular_multa now p = Inr 500)"
proof -
  have d: "timedelta_days (r - fecha_prestamo p) = k"
    using assms(2,3) by (rule timedelta_days_floor)
  have "calcular_multa now p = Inr (if k > 7 then (k - 7) * 500 else 0)"
  proof (cases "devuelto p")
    case True
    with assms(1) have "fecha_devolucion p = Some r"
      by (simp add: fecha_referencia_def)
    with True d show ?thesis
      by (simp add: calcular_multa_devuelto)
  next
    case False
    with assms(1) have "r = now"
      by (simp add: fecha_referencia_def)
    with False d show ?thesis
      by (simp add: calcular_multa_pendiente)
  qed
  then show ?thesis by simp
qed

theorem calcular_multa_por_dias_witness:
  "fecha_referencia 0 prestamo_ejemplo = Some 864000001005
   \<and> 10 * microsegundos_por_dia \<le> 864000001005 - fecha_prestamo prestamo_ejemplo
   \<and> 864000001005 - fecha_prestamo prestamo_ejemplo < (10 + 1) * microsegundos_por_dia
   \<and> calcular_multa 0 prestamo_ejemplo = Inr 1500"
proof -
  have a: "fecha_referencia 0 prestamo_ejemplo = Some 864000001005"
    by (simp add: fecha_referencia_def prestamo_ejemplo_def)
  have b: "10 * microsegundos_por_dia \<le> 864000001005 - fecha_prestamo prestamo_ejemplo"
    by (simp add: microsegundos_por_dia_def prestamo_ejemplo_def)
  have c: "864000001005 - fecha_prestamo prestamo_ejemplo < (10 + 1) * microsegundos_por_dia"
    by (simp add: microsegundos_por_dia_def prestamo_ejemplo_def)
  from calcular_multa_por_dias [OF a b c] a b c show ?thesis by simp
qed

section \<open>Looking up the first match\<close>

lemma first_index_None: "first_index P xs = None \<longleftrightarrow> (\<forall>x \<in> set xs. \<not> P x)"
  by (induction xs) auto

lemma first_index_Some:
  "first_index P xs = Some i \<Longrightarrow> i < length xs \<and> P (xs ! i) \<and> (\<forall>j < i. \<not> P (xs ! j))"
proof (induction xs arbitrary: i)
  case Nil
  then show ?case by simp
next
  case (Cons x xs)
  show ?case
  proof (cases "P x")
    case True
    with Cons.prems show ?thesis by simp
  next
    case False
    with Cons.prems obtain k where k: "first_index P xs = Some k" "i = Suc k"
      by auto
    from Cons.IH [OF k(1)] False k(2) show ?thesis
      by (auto simp: nth_Cons split: nat.splits)
  qed
qed

lemma first_index_exists:
  "\<exists>x \<in> set xs. P x \<Longrightarrow> \<exists>i. first_index P xs = Some i"
  using first_index_None [of P xs] by (cases "first_index P xs") auto

lemma find_Some_props: "find P xs = Some x \<Longrightarrow> x \<in> set xs \<and> P x"
  by (auto simp: find_Some_iff)

lemma find_exists: "\<exists>x \<in> set xs. P x \<Longrightarrow> \<exists>y. find P xs = Some y"
  by (cases "find P xs") (auto simp: find_None_iff)

lemma filter_a_lo_mas_uno:
  "(\<forall>i < length xs. \<forall>j < length xs. P (xs ! i) \<and> P (xs ! j) \<longrightarrow> i = j)
   \<Longrightarrow> length (filter P xs) \<le> 1"
proof (induction xs)
  case Nil
  then show ?case by simp
next
  case (Cons x xs)
  show ?case
  proof (cases "P x")
    case True
    have "\<not> P y" if "y \<in> set xs" for y
    proof
      assume "P y"
      from that obtain k where k: "k < length xs" "xs ! k = y"
        by (auto simp: in_set_conv_nth)
      from Cons.prems [rule_format, of 0 "Suc k"] True k \<open>P y\<close> show False by simp
    qed
    then have "filter P xs = []" by (simp add: filter_empty_conv)
    with True show ?thesis by simp
  next
    case False
    have "\<forall>i < length xs. \<forall>j < length xs. P (xs ! i) \<and> P (xs ! j) \<longrightarrow> i = j"
    proof (intro allI impI)
      fix i j
      assume "i < length xs" "j < length xs" "P (xs ! i) \<and> P (xs ! j)"
      with Cons.prems [rule_format, of "Suc i" "Suc j"] show "i = j" by simp
    qed
    from Cons.IH [OF this] False show ?thesis by simp
  qed
qed

lemma filter_uno_indices:
  "length (filter P xs) \<le> 1 \<Longrightarrow> i < length xs \<Longrightarrow> j < length xs \<Longrightarrow> P (xs ! i) \<Longrightarrow> P (xs ! j)
   \<Longrightarrow> i = j"
proof (induction xs arbitrary: i j)
  case Nil
  then show ?case by simp
next
  case (Cons x xs)
  show ?case
  proof (cases "P x")
    case True
    with Cons.prems(1) have "filter P xs = []" by simp
    then have no: "\<And>y. y \<in> set xs \<Longrightarrow> \<not> P y" by (simp add: filter_empty_conv)
    have "i = 0"
    proof (cases i)
      case (Suc k)
      with Cons.prems(2,4) no [of "xs ! k"] show ?thesis by simp
    qed simp
    moreover have "j = 0"
    proof (cases j)
      case (Suc k)
      with Cons.prems(3,5) no [of "xs ! k"] show ?thesis by simp
    qed simp
    ultimately show ?thesis by simp
  next
    case False
    with Cons.prems obtain i' j' where ij: "i = Suc i'" "j = Suc j'"
      by (cases i; cases j) auto
    from False Cons.prems(1) have "length (filter P xs) \<le> 1" by simp
    from Cons.IH [OF this, of i' j'] Cons.prems ij show ?thesis by simp
  qed
qed

section \<open>What the two operations do to the state\<close>

lemma devolver_libro_sin_prestamo:
  "first_index (prestamo_pendiente s id_u id_l) (prestamos s) = None
   \<Longrightarrow> devolver_libro now id_u id_l s = (Inr 0, s)"
  by (simp add: devolver_libro_def)

lemma devolver_libro_con_prestamo:
  assumes "first_index (prestamo_pendiente s id_u id_l) (prestamos s) = Some i"
  shows "devolver_libro now id_u id_l s =
    (Inr (multa_al_devolver now (prestamos s ! i)),
     s\<lparr>libro_objs := (libro_objs s)[libro (prestamos s ! i) :=
          (libro_objs s ! libro (prestamos s ! i))\<lparr>disponible := True\<rparr>],
       prestamos := (prestamos s)[i := (prestamos s ! i)\<lparr>devuelto := True, fecha_devolucion := Some now\<rparr>],
       usuario_objs := (usuario_objs s)[usuario (prestamos s ! i) :=
          (usuario_objs s ! usuario (prestamos s ! i))
            \<lparr>multas := multas (usuario_objs s ! usuario (prestamos s ! i))
                        + multa_al_devolver now (prestamos s ! i)\<rparr>]\<rparr>)"
  using assms
  by (simp add: devolver_libro_def devolver_def calcular_multa_tras_devolver)

lemma id_usuario_update_multas [simp]:
  "id_usuario (xs[r := (xs ! r)\<lparr>multas := m\<rparr>] ! k) = id_usuario (xs ! k)"
  by (cases "r < length xs"; cases "k = r") (simp_all add: not_less list_update_beyond)

lemma id_libro_update_disponible [simp]:
  "id_libro (xs[r := (xs ! r)\<lparr>disponible := d\<rparr>] ! k) = id_libro (xs ! k)"
  by (cases "r < length xs"; cases "k = r") (simp_all add: not_less list_update_beyond)

lemma multas_update_mono:
  "0 \<le> m \<Longrightarrow> multas (xs ! k) \<le> multas (xs[r := (xs ! r)\<lparr>multas := multas (xs ! r) + m\<rparr>] ! k)"
  by (cases "r < length xs"; cases "k = r") (simp_all add: not_less list_update_beyond)

lemma disponible_update_False:
  "disponible (xs[r := (xs ! r)\<lparr>disponible := False\<rparr>] ! k) \<Longrightarrow> disponible (xs ! k)"
  by (cases "r < length xs"; cases "k = r") (simp_all add: not_less list_update_beyond)

lemma devolver_libro_resultado:
  "\<exists>m. fst (devolver_libro now id_u id_l s) = Inr m \<and> 0 \<le> m"
proof (cases "first_index (prestamo_pendiente s id_u id_l) (prestamos s)")
  case None
  then show ?thesis by (simp add: devolver_libro_sin_prestamo)
next
  case (Some i)
  then show ?thesis
    by (simp add: devolver_libro_con_prestamo multa_al_devolver_nonneg)
qed

lemma devolver_libro_multas_mono:
  "multas (usuario_objs s ! k) \<le> multas (usuario_objs (snd (devolver_libro now id_u id_l s)) ! k)"
proof (cases "first_index (prestamo_pendiente s id_u id_l) (prestamos s)")
  case None
  then show ?thesis by (simp add: devolver_libro_sin_prestamo)
next
  case (Some i)
  then show ?thesis
    by (simp add: devolver_libro_con_prestamo multas_update_mono multa_al_devolver_nonneg)
qed

lemma devolver_libro_length_usuario_objs [simp]:
  "length (usuario_objs (snd (devolver_libro now id_u id_l s))) = length (usuario_objs s)"
  by (cases "first_index (prestamo_pendiente s id_u id_l) (prestamos s)")
     (simp_all add: devolver_libro_sin_prestamo devolver_libro_con_prestamo)

lemma prestar_libro_usuario_objs [simp]:
  "usuario_objs (snd (prestar_libro now id_u id_l s)) = usuario_objs s"
  by (simp add: prestar_libro_def Let_def split: option.splits)

lemma prestar_libro_falla_iff:
  "fst (prestar_libro now id_u id_l s) = None \<longleftrightarrow>
     (\<forall>u \<in> set (usuarios s). id_usuario (usuario_objs s ! u) \<noteq> id_u) \<or> sin_disponible id_l s"
  by (auto simp: prestar_libro_def sin_disponible_def Let_def find_None_iff
           split: option.splits dest!: find_Some_props)

lemma prestar_libro_None_estado:
  "fst (prestar_libro now id_u id_l s) = None \<Longrightarrow> prestar_libro now id_u id_l s = (None, s)"
  by (auto simp: prestar_libro_def Let_def split: option.splits)

lemma prestar_libro_Some:
  assumes "find (\<lambda>u. id_usuario (usuario_objs s ! u) = id_u) (usuarios s) = Some u"
    and "find (\<lambda>l. id_libro (libro_objs s ! l) = id_l \<and> disponible (libro_objs s ! l)) (libros s) = Some l"
  shows "prestar_libro now id_u id_l s =
     (Some (Prestamo_init u l None now),
      s\<lparr>libro_objs := (libro_objs s)[l := (libro_objs s ! l)\<lparr>disponible := False\<rparr>],
        prestamos := prestamos s @ [Prestamo_init u l None now]\<rparr>)"
  using assms by (simp add: prestar_libro_def Let_def)

lemma prestamo_pendiente_tras_devolver:
  "prestamo_pendiente
     (s\<lparr>libro_objs := (libro_objs s)[b := (libro_objs s ! b)\<lparr>disponible := d\<rparr>],
        prestamos := ps,
        usuario_objs := (usuario_objs s)[u := (usuario_objs s ! u)\<lparr>multas := m\<rparr>]\<rparr>) id_u id_l p
   = prestamo_pendiente s id_u id_l p"
  by (simp add: prestamo_pendiente_def)

section \<open>References stay valid\<close>

lemma bien_formada_prestar_libro:
  assumes "bien_formada s"
  shows "bien_formada (snd (prestar_libro now id_u id_l s))"
proof (cases "find (\<lambda>u. id_usuario (usuario_objs s ! u) = id_u) (usuarios s)")
  case None
  with assms show ?thesis by (simp add: prestar_libro_def)
next
  case u: (Some u)
  show ?thesis
  proof (cases "find (\<lambda>l. id_libro (libro_objs s ! l) = id_l \<and> disponible (libro_objs s ! l)) (libros s)")
    case None
    with assms u show ?thesis by (simp add: prestar_libro_def)
  next
    case l: (Some l)
    from u have "u \<in> set (usuarios s)" by (auto dest: find_Some_props)
    moreover from l have "l \<in> set (libros s)" by (auto dest: find_Some_props)
    ultimately show ?thesis
      using assms by (auto simp: prestar_libro_Some [OF u l] bien_formada_def Prestamo_init_def)
  qed
qed

lemma bien_formada_devolver_libro:
  assumes "bien_formada s"
  shows "bien_formada (snd (devolver_libro now id_u id_l s))"
proof (cases "first_index (prestamo_pendiente s id_u id_l) (prestamos s)")
  case None
  with assms show ?thesis by (simp add: devolver_libro_sin_prestamo)
next
  case (Some i)
  from first_index_Some [OF Some] have i: "i < length (prestamos s)" by simp
  then have pi: "prestamos s ! i \<in> set (prestamos s)" by simp
  have "\<And>p. p \<in> set ((prestamos s)[i := (prestamos s ! i)\<lparr>devuelto := True, fecha_devolucion := Some now\<rparr>])
        \<Longrightarrow> usuario p < length (usuario_objs s) \<and> libro p < length (libro_objs s)"
    using assms pi by (auto simp: bien_formada_def dest!: set_update_subset_insert [THEN subsetD])
  with assms show ?thesis
    by (simp add: devolver_libro_con_prestamo [OF Some] bien_formada_def)
qed

lemma bien_formada_ejecutar:
  assumes "bien_formada s" and "ejecutar x s = Some s'"
  shows "bien_formada s'"
proof (cases x)
  case (NuevoUsuario i n)
  with assms show ?thesis by (auto simp: Usuario_init_def bien_formada_def less_Suc_eq)
next
  case (NuevoLibro i t a d)
  with assms show ?thesis by (auto simp: Libro_init_def bien_formada_def less_Suc_eq)
next
  case (RegistrarUsuario u)
  with assms show ?thesis by (auto simp: registrar_usuario_def bien_formada_def split: if_splits)
next
  case (AgregarLibro l)
  with assms show ?thesis by (auto simp: agregar_libro_def bien_formada_def split: if_splits)
next
  case (BuscarLibro c)
  with assms show ?thesis by simp
next
  case (PrestarLibro now id_u id_l)
  with assms show ?thesis by (auto simp: bien_formada_prestar_libro)
next
  case (DevolverLibro now id_u id_l)
  with assms show ?thesis by (auto simp: bien_formada_devolver_libro)
qed

lemma bien_formada_ejecutar_todas:
  "bien_formada s \<Longrightarrow> ejecutar_todas xs s = Some s' \<Longrightarrow> bien_formada s'"
proof (induction xs arbitrary: s)
  case Nil
  then show ?case by simp
next
  case (Cons x xs)
  then show ?case
    by (auto split: option.splits dest: bien_formada_ejecutar)
qed

lemma bien_formada_vacia: "bien_formada biblioteca_vacia"
  by (simp add: bien_formada_def biblioteca_vacia_def)

section \<open>Balances\<close>

text \<open>
  C10. \<open>calcular_multa\<close> never returns a negative number: it returns a fine of at least 0,
  or raises on a loan marked returned that has no return date; when the reference date
  is not after the loan date the fine is 0. So \<open>devolver_libro\<close> always returns a
  fine of at least 0 and lowers the balance of no user.
\<close>

theorem calcular_multa_no_negativa:
  "(case calcular_multa now p of Inr m \<Rightarrow> 0 \<le> m | Inl e \<Rightarrow> devuelto p \<and> fecha_devolucion p = None)
   \<and> (\<forall>r. fecha_referencia now p = Some r \<and> r \<le> fecha_prestamo p \<longrightarrow> calcular_multa now p = Inr 0)
   \<and> (\<exists>m. fst (devolver_libro t id_u id_l s) = Inr m \<and> 0 \<le> m)
   \<and> (\<forall>k < length (usuario_objs s).
         multas (usuario_objs s ! k) \<le> multas (usuario_objs (snd (devolver_libro t id_u id_l s)) ! k))"
proof (intro conjI allI impI)
  show "case calcular_multa now p of Inr m \<Rightarrow> 0 \<le> m | Inl e \<Rightarrow> devuelto p \<and> fecha_devolucion p = None"
    by (auto simp: calcular_multa_def DIAS_MAXIMO_def MULTA_POR_DIA_def split: option.splits)
next
  fix r
  assume a: "fecha_referencia now p = Some r \<and> r \<le> fecha_prestamo p"
  then have "timedelta_days (r - fecha_prestamo p) \<le> 0"
    unfolding timedelta_days_def microsegundos_por_dia_def
    by (intro div_nonpos_pos_le0) simp_all
  with a show "calcular_multa now p = Inr 0"
    by (cases "devuelto p")
       (auto simp: fecha_referencia_def calcular_multa_devuelto calcular_multa_pendiente)
next
  show "\<exists>m. fst (devolver_libro t id_u id_l s) = Inr m \<and> 0 \<le> m"
    by (rule devolver_libro_resultado)
next
  fix k
  show "multas (usuario_objs s ! k) \<le> multas (usuario_objs (snd (devolver_libro t id_u id_l s)) ! k)"
    by (rule devolver_libro_multas_mono)
qed

theorem calcular_multa_no_negativa_witness:
  "fecha_referencia 0 prestamo_adelantado = Some 0
   \<and> 0 \<le> fecha_prestamo prestamo_adelantado
   \<and> timedelta_days (0 - fecha_prestamo prestamo_adelantado) = - 10
   \<and> calcular_multa 0 prestamo_adelantado = Inr 0
   \<and> 0 < length (usuario_objs estado_prestado)
   \<and> multas (usuario_objs estado_prestado ! 0)
       \<le> multas (usuario_objs (snd (devolver_libro (- diez_dias) 2 30 estado_prestado)) ! 0)"
proof -
  have h: "fecha_referencia 0 prestamo_adelantado = Some 0" "0 \<le> fecha_prestamo prestamo_adelantado"
    "timedelta_days (0 - fecha_prestamo prestamo_adelantado) = - 10"
    "0 < length (usuario_objs estado_prestado)"
    by (simp_all add: fecha_referencia_def prestamo_adelantado_def diez_dias_def
          timedelta_days_def microsegundos_por_dia_def estado_prestado_def)
  from calcular_multa_no_negativa [where now = 0 and p = prestamo_adelantado and t = "- diez_dias"
      and id_u = 2 and id_l = 30 and s = estado_prestado] h
  show ?thesis by simp
qed

text \<open>
  C7. No single operation lowers the balance of any user: after building a user or a
  book, \<open>registrar_usuario\<close>, \<open>agregar_libro\<close>, \<open>buscar_libro\<close>, \<open>prestar_libro\<close>
  or \<open>devolver_libro\<close>, every user is still there with a balance at least as large.
\<close>

theorem multas_no_disminuyen:
  assumes "ejecutar x s = Some s'" and "k < length (usuario_objs s)"
  shows "k < length (usuario_objs s') \<and> multas (usuario_objs s ! k) \<le> multas (usuario_objs s' ! k)"
proof (cases x)
  case (NuevoUsuario i n)
  with assms show ?thesis by (auto simp: Usuario_init_def nth_append)
next
  case (NuevoLibro i t a d)
  with assms show ?thesis by (auto simp: Libro_init_def)
next
  case (RegistrarUsuario u)
  with assms show ?thesis by (auto simp: registrar_usuario_def split: if_splits)
next
  case (AgregarLibro l)
  with assms show ?thesis by (auto simp: agregar_libro_def split: if_splits)
next
  case (BuscarLibro c)
  with assms show ?thesis by simp
next
  case (PrestarLibro now id_u id_l)
  with assms show ?thesis by auto
next
  case (DevolverLibro now id_u id_l)
  with assms show ?thesis by (auto simp: devolver_libro_multas_mono)
qed

theorem multas_no_disminuyen_witness:
  "ejecutar (DevolverLibro diez_dias 2 30) estado_prestado
     = Some (snd (devolver_libro diez_dias 2 30 estado_prestado))
   \<and> 0 < length (usuario_objs estado_prestado)
   \<and> multas (usuario_objs estado_prestado ! 0) = 0
   \<and> multas (usuario_objs estado_prestado ! 0)
       \<le> multas (usuario_objs (snd (devolver_libro diez_dias 2 30 estado_prestado)) ! 0)"
proof -
  have e: "ejecutar (DevolverLibro diez_dias 2 30) estado_prestado
     = Some (snd (devolver_libro diez_dias 2 30 estado_prestado))"
    by simp
  have l: "0 < length (usuario_objs estado_prestado)" "multas (usuario_objs estado_prestado ! 0) = 0"
    by (simp_all add: estado_prestado_def)
  from multas_no_disminuyen [OF e l(1)] e l show ?thesis by simp
qed

section \<open>Lending\<close>

lemma sin_disponible_prestar_libro:
  assumes "sin_disponible b s"
  shows "sin_disponible b (snd (prestar_libro now id_u id_l s))"
proof (cases "fst (prestar_libro now id_u id_l s)")
  case None
  with assms show ?thesis by (simp add: prestar_libro_None_estado)
next
  case (Some p)
  then obtain u l where
    "find (\<lambda>u. id_usuario (usuario_objs s ! u) = id_u) (usuarios s) = Some u"
    "find (\<lambda>l. id_libro (libro_objs s ! l) = id_l \<and> disponible (libro_objs s ! l)) (libros s) = Some l"
    by (auto simp: prestar_libro_def Let_def split: option.splits)
  from prestar_libro_Some [OF this] assms show ?thesis
    by (auto simp: sin_disponible_def dest: disponible_update_False)
qed

lemma sin_disponible_devolver_libro:
  assumes "sin_disponible b s" and "id_l \<noteq> b"
  shows "sin_disponible b (snd (devolver_libro now id_u id_l s))"
proof (cases "first_index (prestamo_pendiente s id_u id_l) (prestamos s)")
  case None
  with assms show ?thesis by (simp add: devolver_libro_sin_prestamo)
next
  case (Some i)
  from first_index_Some [OF Some]
  have idl: "id_libro (libro_objs s ! libro (prestamos s ! i)) = id_l"
    by (simp add: prestamo_pendiente_def)
  show ?thesis
    unfolding sin_disponible_def
  proof (intro ballI impI)
    fix l
    assume l: "l \<in> set (libros (snd (devolver_libro now id_u id_l s)))"
      and "id_libro (libro_objs (snd (devolver_libro now id_u id_l s)) ! l) = b"
    then have lb: "l \<in> set (libros s)" "id_libro (libro_objs s ! l) = b"
      by (simp_all add: devolver_libro_con_prestamo [OF Some])
    with idl assms(2) have "l \<noteq> libro (prestamos s ! i)" by auto
    moreover from assms(1) lb have "\<not> disponible (libro_objs s ! l)"
      by (simp add: sin_disponible_def)
    ultimately show "\<not> disponible (libro_objs (snd (devolver_libro now id_u id_l s)) ! l)"
      by (simp add: devolver_libro_con_prestamo [OF Some])
  qed
qed

lemma sin_disponible_ejecutar:
  assumes "bien_formada s" and "sin_disponible b s" and "mantiene b s x" and "ejecutar x s = Some s'"
  shows "sin_disponible b s'"
proof (cases x)
  case (NuevoUsuario i n)
  with assms show ?thesis by (auto simp: Usuario_init_def sin_disponible_def)
next
  case (NuevoLibro i t a d)
  with assms show ?thesis
    by (auto simp: Libro_init_def sin_disponible_def bien_formada_def nth_append)
next
  case (RegistrarUsuario u)
  with assms show ?thesis by (auto simp: registrar_usuario_def sin_disponible_def split: if_splits)
next
  case (AgregarLibro l)
  with assms show ?thesis by (auto simp: agregar_libro_def sin_disponible_def split: if_splits)
next
  case (BuscarLibro c)
  with assms show ?thesis by simp
next
  case (PrestarLibro now id_u id_l)
  with assms show ?thesis by (auto simp: sin_disponible_prestar_libro)
next
  case (DevolverLibro now id_u id_l)
  with assms(4) have s': "s' = snd (devolver_libro now id_u id_l s)" by simp
  from DevolverLibro assms(3)
  have "id_l \<noteq> b \<or> first_index (prestamo_pendiente s id_u id_l) (prestamos s) = None"
    by simp
  then show ?thesis
  proof
    assume "id_l \<noteq> b"
    with assms(2) show ?thesis
      unfolding s' by (rule sin_disponible_devolver_libro)
  next
    assume "first_index (prestamo_pendiente s id_u id_l) (prestamos s) = None"
    with assms(2) show ?thesis
      unfolding s' by (simp add: devolver_libro_sin_prestamo)
  qed
qed

lemma sin_disponible_ejecutar_sin_devolver:
  "bien_formada s \<Longrightarrow> sin_disponible b s \<Longrightarrow> ejecutar_sin_devolver b xs s = Some s'
   \<Longrightarrow> sin_disponible b s'"
proof (induction xs arbitrary: s)
  case Nil
  then show ?case by simp
next
  case (Cons x xs)
  from Cons.prems(3) obtain s1 where m: "mantiene b s x" and e: "ejecutar x s = Some s1"
    and r: "ejecutar_sin_devolver b xs s1 = Some s'"
    by (auto split: if_splits option.splits)
  from bien_formada_ejecutar [OF Cons.prems(1) e]
    sin_disponible_ejecutar [OF Cons.prems(1,2) m e] r
  show ?case by (rule Cons.IH)
qed

text \<open>
  C5. \<open>prestar_libro\<close> returns \<open>None\<close> and leaves the whole state as it was when no
  registered user has the id, when no catalog book has the id, or when every catalog
  book with the id is on loan.
\<close>

theorem prestar_libro_sin_efecto:
  assumes "(\<forall>u \<in> set (usuarios s). id_usuario (usuario_objs s ! u) \<noteq> id_u)
         \<or> (\<forall>l \<in> set (libros s). id_libro (libro_objs s ! l) \<noteq> id_l)
         \<or> (\<forall>l \<in> set (libros s). id_libro (libro_objs s ! l) = id_l \<longrightarrow> \<not> disponible (libro_objs s ! l))"
  shows "prestar_libro now id_u id_l s = (None, s)"
proof -
  from assms have "(\<forall>u \<in> set (usuarios s). id_usuario (usuario_objs s ! u) \<noteq> id_u) \<or> sin_disponible id_l s"
    by (auto simp: sin_disponible_def)
  then have "fst (prestar_libro now id_u id_l s) = None"
    by (simp add: prestar_libro_falla_iff)
  then show ?thesis by (rule prestar_libro_None_estado)
qed

theorem prestar_libro_sin_efecto_witness:
  "prestar_libro 0 99 30 estado_ejemplo = (None, estado_ejemplo)
   \<and> prestar_libro 0 2 31 estado_ejemplo = (None, estado_ejemplo)
   \<and> prestar_libro 0 2 30 estado_prestado = (None, estado_prestado)"
proof -
  have "\<forall>u \<in> set (usuarios estado_ejemplo). id_usuario (usuario_objs estado_ejemplo ! u) \<noteq> 99"
    by (simp add: estado_ejemplo_def)
  then have a: "prestar_libro 0 99 30 estado_ejemplo = (None, estado_ejemplo)"
    by (intro prestar_libro_sin_efecto disjI1)
  have "\<forall>l \<in> set (libros estado_ejemplo). id_libro (libro_objs estado_ejemplo ! l) \<noteq> 31"
    by (simp add: estado_ejemplo_def)
  then have b: "prestar_libro 0 2 31 estado_ejemplo = (None, estado_ejemplo)"
    by (intro prestar_libro_sin_efecto disjI2 disjI1)
  have "\<forall>l \<in> set (libros estado_prestado). id_libro (libro_objs estado_prestado ! l) = 30
          \<longrightarrow> \<not> disponible (libro_objs estado_prestado ! l)"
    by (simp add: estado_prestado_def)
  then have c: "prestar_libro 0 2 30 estado_prestado = (None, estado_prestado)"
    by (intro prestar_libro_sin_efecto disjI2)
  from a b c show ?thesis by simp
qed

text \<open>
  C1. When a registered user has the id and an available catalog book has the id,
  \<open>prestar_libro\<close> returns a new loan, dated now and not returned, of the first user
  of the list with the id and of the first book of the catalog that has the id and is
  available; in the new state that book is no longer available, the loan is the last
  of the loan list and nothing else has changed. When that book was the only available
  catalog book with the id, lending the id again fails for every user id, after any
  run of operations in which no book with the id is returned and no available book
  with the id is added to the catalog.
\<close>

theorem prestar_libro_exito:
  assumes "bien_formada s"
    and "\<exists>u \<in> set (usuarios s). id_usuario (usuario_objs s ! u) = id_u"
    and "\<exists>l \<in> set (libros s). id_libro (libro_objs s ! l) = id_l \<and> disponible (libro_objs s ! l)"
  shows "\<exists>p s' i k. prestar_libro now id_u id_l s = (Some p, s')
     \<and> i < length (usuarios s) \<and> usuario p = usuarios s ! i
     \<and> id_usuario (usuario_objs s ! usuario p) = id_u
     \<and> (\<forall>j < i. id_usuario (usuario_objs s ! (usuarios s ! j)) \<noteq> id_u)
     \<and> k < length (libros s) \<and> libro p = libros s ! k
     \<and> id_libro (libro_objs s ! libro p) = id_l \<and> disponible (libro_objs s ! libro p)
     \<and> (\<forall>j < k. \<not> (id_libro (libro_objs s ! (libros s ! j)) = id_l
                    \<and> disponible (libro_objs s ! (libros s ! j))))
     \<and> fecha_prestamo p = now \<and> \<not> devuelto p \<and> fecha_devolucion p = None
     \<and> s' = s\<lparr>libro_objs := (libro_objs s)[libro p := (libro_objs s ! libro p)\<lparr>disponible := False\<rparr>],
              prestamos := prestamos s @ [p]\<rparr>
     \<and> libro p \<in> set (libros s) \<and> id_libro (libro_objs s' ! libro p) = id_l
     \<and> \<not> disponible (libro_objs s' ! libro p)
     \<and> usuario p \<in> set (usuarios s) \<and> id_usuario (usuario_objs s' ! usuario p) = id_u
     \<and> prestamos s' = prestamos s @ [p]
     \<and> ((\<forall>l \<in> set (libros s). id_libro (libro_objs s ! l) = id_l \<and> disponible (libro_objs s ! l)
            \<longrightarrow> l = libro p)
         \<longrightarrow> (\<forall>xs s'' now' id_u'. ejecutar_sin_devolver id_l xs s' = Some s''
                \<longrightarrow> prestar_libro now' id_u' id_l s'' = (None, s'')))"
proof -
  from find_exists [OF assms(2)] obtain u
    where u: "find (\<lambda>u. id_usuario (usuario_objs s ! u) = id_u) (usuarios s) = Some u" ..
  from find_exists [OF assms(3)] obtain l
    where l: "find (\<lambda>l. id_libro (libro_objs s ! l) = id_l \<and> disponible (libro_objs s ! l)) (libros s) = Some l" ..
  define p where "p = Prestamo_init u l None now"
  define s' where "s' = s\<lparr>libro_objs := (libro_objs s)[l := (libro_objs s ! l)\<lparr>disponible := False\<rparr>],
        prestamos := prestamos s @ [p]\<rparr>"
  have eq: "prestar_libro now id_u id_l s = (Some p, s')"
    unfolding p_def s'_def by (rule prestar_libro_Some [OF u l])
  from u obtain i where i: "i < length (usuarios s)" "u = usuarios s ! i"
    "\<forall>j < i. id_usuario (usuario_objs s ! (usuarios s ! j)) \<noteq> id_u"
    unfolding find_Some_iff by blast
  from l obtain k where k: "k < length (libros s)" "l = libros s ! k"
    "\<forall>j < k. \<not> (id_libro (libro_objs s ! (libros s ! j)) = id_l
                \<and> disponible (libro_objs s ! (libros s ! j)))"
    unfolding find_Some_iff by blast
  from u have up: "u \<in> set (usuarios s)" "id_usuario (usuario_objs s ! u) = id_u"
    by (auto dest: find_Some_props)
  from l have lp: "l \<in> set (libros s)" "id_libro (libro_objs s ! l) = id_l" "disponible (libro_objs s ! l)"
    by (auto dest: find_Some_props)
  from lp(1) assms(1) have ll: "l < length (libro_objs s)"
    by (simp add: bien_formada_def)
  have pf: "usuario p = u" "libro p = l" "fecha_prestamo p = now" "\<not> devuelto p"
    "fecha_devolucion p = None"
    by (simp_all add: p_def Prestamo_init_def)
  have wf': "bien_formada s'"
    using bien_formada_prestar_libro [OF assms(1), of now id_u id_l] eq by simp
  have rest: "\<forall>xs s'' now' id_u'. ejecutar_sin_devolver id_l xs s' = Some s''
                \<longrightarrow> prestar_libro now' id_u' id_l s'' = (None, s'')"
    if only: "\<forall>k \<in> set (libros s). id_libro (libro_objs s ! k) = id_l \<and> disponible (libro_objs s ! k)
            \<longrightarrow> k = libro p"
  proof (intro allI impI)
    fix xs s'' now' id_u'
    assume run: "ejecutar_sin_devolver id_l xs s' = Some s''"
    have "sin_disponible id_l s'"
      unfolding sin_disponible_def
    proof (intro ballI impI)
      fix k
      assume k: "k \<in> set (libros s')" "id_libro (libro_objs s' ! k) = id_l"
      show "\<not> disponible (libro_objs s' ! k)"
      proof (cases "k = l")
        case True
        with ll show ?thesis by (simp add: s'_def)
      next
        case False
        with k only pf(2) have "\<not> disponible (libro_objs s ! k)"
          by (auto simp: s'_def)
        with False show ?thesis by (simp add: s'_def)
      qed
    qed
    from sin_disponible_ejecutar_sin_devolver [OF wf' this run]
    have "fst (prestar_libro now' id_u' id_l s'') = None"
      by (simp add: prestar_libro_falla_iff)
    then show "prestar_libro now' id_u' id_l s'' = (None, s'')"
      by (rule prestar_libro_None_estado)
  qed
  have a: "i < length (usuarios s)" "usuario p = usuarios s ! i"
    "id_usuario (usuario_objs s ! usuario p) = id_u"
    "\<forall>j < i. id_usuario (usuario_objs s ! (usuarios s ! j)) \<noteq> id_u"
    using i up pf by simp_all
  have b: "k < length (libros s)" "libro p = libros s ! k"
    "id_libro (libro_objs s ! libro p) = id_l" "disponible (libro_objs s ! libro p)"
    "\<forall>j < k. \<not> (id_libro (libro_objs s ! (libros s ! j)) = id_l
                \<and> disponible (libro_objs s ! (libros s ! j)))"
    using k lp pf by simp_all
  have c: "s' = s\<lparr>libro_objs := (libro_objs s)[libro p := (libro_objs s ! libro p)\<lparr>disponible := False\<rparr>],
              prestamos := prestamos s @ [p]\<rparr>"
    by (simp add: s'_def pf)
  have d: "libro p \<in> set (libros s)" "id_libro (libro_objs s' ! libro p) = id_l"
    "\<not> disponible (libro_objs s' ! libro p)"
    "usuario p \<in> set (usuarios s)" "id_usuario (usuario_objs s' ! usuario p) = id_u"
    "prestamos s' = prestamos s @ [p]"
    using up lp ll pf by (simp_all add: s'_def)
  show ?thesis
    apply (rule exI [of _ p], rule exI [of _ s'], rule exI [of _ i], rule exI [of _ k])
    using eq a b pf(3,4,5) c d rest by blast
qed

theorem prestar_libro_exito_witness:
  "bien_formada estado_ejemplo
   \<and> (\<exists>u \<in> set (usuarios estado_ejemplo). id_usuario (usuario_objs estado_ejemplo ! u) = 2)
   \<and> (\<exists>l \<in> set (libros estado_ejemplo).
         id_libro (libro_objs estado_ejemplo ! l) = 30 \<and> disponible (libro_objs estado_ejemplo ! l))
   \<and> fst (prestar_libro 0 2 30 estado_ejemplo) \<noteq> None
   \<and> ejecutar_sin_devolver 30
        [NuevoUsuario 7 (codigos ''Pedro''), RegistrarUsuario 1, DevolverLibro 3 7 30]
        (snd (prestar_libro 0 2 30 estado_ejemplo))
       = Some (estado_prestado\<lparr>usuario_objs := usuario_objs estado_prestado
                 @ [\<lparr>id_usuario = 7, nombre = codigos ''Pedro'', multas = 0\<rparr>], usuarios := [0, 1]\<rparr>)
   \<and> fst (prestar_libro 5 7 30 (estado_prestado\<lparr>usuario_objs := usuario_objs estado_prestado
                 @ [\<lparr>id_usuario = 7, nombre = codigos ''Pedro'', multas = 0\<rparr>], usuarios := [0, 1]\<rparr>)) = None"
proof -
  have h1: "bien_formada estado_ejemplo" by (rule bien_formada_ejemplo)
  have h2: "\<exists>u \<in> set (usuarios estado_ejemplo). id_usuario (usuario_objs estado_ejemplo ! u) = 2"
    by (simp add: estado_ejemplo_def)
  have h3: "\<exists>l \<in> set (libros estado_ejemplo).
         id_libro (libro_objs estado_ejemplo ! l) = 30 \<and> disponible (libro_objs estado_ejemplo ! l)"
    by (simp add: estado_ejemplo_def)
  have run: "ejecutar_sin_devolver 30
        [NuevoUsuario 7 (codigos ''Pedro''), RegistrarUsuario 1, DevolverLibro 3 7 30]
        (snd (prestar_libro 0 2 30 estado_ejemplo))
       = Some (estado_prestado\<lparr>usuario_objs := usuario_objs estado_prestado
                 @ [\<lparr>id_usuario = 7, nombre = codigos ''Pedro'', multas = 0\<rparr>], usuarios := [0, 1]\<rparr>)"
    by (simp add: prestar_ejemplo) (simp add: estado_prestado_def operaciones_defs)
  from prestar_libro_exito [OF h1 h2 h3, of 0] obtain p s' k where
    eq: "prestar_libro 0 2 30 estado_ejemplo = (Some p, s')"
    and lp: "k < length (libros estado_ejemplo)" "libro p = libros estado_ejemplo ! k"
    and rest: "(\<forall>l \<in> set (libros estado_ejemplo). id_libro (libro_objs estado_ejemplo ! l) = 30
                  \<and> disponible (libro_objs estado_ejemplo ! l) \<longrightarrow> l = libro p)
         \<longrightarrow> (\<forall>xs s'' now' id_u'. ejecutar_sin_devolver 30 xs s' = Some s''
                \<longrightarrow> prestar_libro now' id_u' 30 s'' = (None, s''))"
    by blast
  from lp have "libro p = 0" by (simp add: estado_ejemplo_def)
  then have "\<forall>l \<in> set (libros estado_ejemplo). id_libro (libro_objs estado_ejemplo ! l) = 30
                  \<and> disponible (libro_objs estado_ejemplo ! l) \<longrightarrow> l = libro p"
    by (simp add: estado_ejemplo_def)
  with rest have "\<forall>xs s'' now' id_u'. ejecutar_sin_devolver 30 xs s' = Some s''
                \<longrightarrow> prestar_libro now' id_u' 30 s'' = (None, s'')" ..
  moreover from eq have "s' = snd (prestar_libro 0 2 30 estado_ejemplo)" by simp
  ultimately have "prestar_libro 5 7 30 (estado_prestado\<lparr>usuario_objs := usuario_objs estado_prestado
                 @ [\<lparr>id_usuario = 7, nombre = codigos ''Pedro'', multas = 0\<rparr>], usuarios := [0, 1]\<rparr>)
       = (None, estado_prestado\<lparr>usuario_objs := usuario_objs estado_prestado
                 @ [\<lparr>id_usuario = 7, nombre = codigos ''Pedro'', multas = 0\<rparr>], usuarios := [0, 1]\<rparr>)"
    using run by blast
  with h1 h2 h3 eq run show ?thesis by simp
qed

theorem prestar_libro_segundo_ejemplar:
  "ejecutar_todas operaciones_dos_ejemplares biblioteca_vacia = Some estado_dos_ejemplares
   \<and> bien_formada estado_dos_ejemplares
   \<and> 0 \<in> set (usuarios estado_dos_ejemplares)
   \<and> id_usuario (usuario_objs estado_dos_ejemplares ! 0) = 2
   \<and> 0 \<in> set (libros estado_dos_ejemplares)
   \<and> id_libro (libro_objs estado_dos_ejemplares ! 0) = 30
   \<and> disponible (libro_objs estado_dos_ejemplares ! 0)
   \<and> fst (prestar_libro 0 2 30 estado_dos_ejemplares)
       = Some \<lparr>usuario = 0, libro = 0, fecha_prestamo = 0, devuelto = False, fecha_devolucion = None\<rparr>
   \<and> snd (prestar_libro 0 2 30 estado_dos_ejemplares)
       = estado_dos_ejemplares\<lparr>libro_objs :=
            [\<lparr>id_libro = 30, titulo = (codigos ''1984''), autor = (codigos ''George Orwell''), disponible = False\<rparr>,
             \<lparr>id_libro = 30, titulo = (codigos ''1984''), autor = (codigos ''George Orwell''), disponible = True\<rparr>],
           prestamos := [\<lparr>usuario = 0, libro = 0, fecha_prestamo = 0, devuelto = False,
             fecha_devolucion = None\<rparr>]\<rparr>
   \<and> prestar_libro 1 2 30 (snd (prestar_libro 0 2 30 estado_dos_ejemplares))
       = (Some \<lparr>usuario = 0, libro = 1, fecha_prestamo = 1, devuelto = False, fecha_devolucion = None\<rparr>,
          estado_dos_prestamos\<lparr>prestamos := [\<lparr>usuario = 0, libro = 0, fecha_prestamo = 0, devuelto = False,
             fecha_devolucion = None\<rparr>, \<lparr>usuario = 0, libro = 1, fecha_prestamo = 1, devuelto = False,
             fecha_devolucion = None\<rparr>]\<rparr>)"
  by (simp add: ejecutar_dos_ejemplares)
     (simp add: estado_dos_ejemplares_def estado_dos_prestamos_def bien_formada_def operaciones_defs)

section \<open>Returning\<close>

text \<open>
  C3. When some loan that is not returned matches the user id and the book id,
  \<open>devolver_libro\<close> closes the first such loan with the return date now, makes its
  book available, adds the fine of the closed loan to the balance of the loan's user
  and returns that fine.
\<close>

theorem devolver_libro_cierra_prestamo:
  assumes "bien_formada s"
    and "\<exists>p \<in> set (prestamos s). prestamo_pendiente s id_u id_l p"
  shows "\<exists>i m s'. first_index (prestamo_pendiente s id_u id_l) (prestamos s) = Some i
     \<and> i < length (prestamos s)
     \<and> prestamo_pendiente s id_u id_l (prestamos s ! i)
     \<and> devolver_libro now id_u id_l s = (Inr m, s')
     \<and> prestamos s' = (prestamos s)[i := (prestamos s ! i)\<lparr>devuelto := True, fecha_devolucion := Some now\<rparr>]
     \<and> devuelto (prestamos s' ! i) \<and> fecha_devolucion (prestamos s' ! i) = Some now
     \<and> disponible (libro_objs s' ! libro (prestamos s ! i))
     \<and> (\<forall>t. calcular_multa t (prestamos s' ! i) = Inr m)
     \<and> multas (usuario_objs s' ! usuario (prestamos s ! i))
         = multas (usuario_objs s ! usuario (prestamos s ! i)) + m"
proof -
  from first_index_exists [OF assms(2)] obtain i
    where i: "first_index (prestamo_pendiente s id_u id_l) (prestamos s) = Some i" ..
  from first_index_Some [OF i]
  have il: "i < length (prestamos s)" and pend: "prestamo_pendiente s id_u id_l (prestamos s ! i)"
    by simp_all
  from il have "prestamos s ! i \<in> set (prestamos s)" by simp
  with assms(1) have rng: "usuario (prestamos s ! i) < length (usuario_objs s)"
    "libro (prestamos s ! i) < length (libro_objs s)"
    by (simp_all add: bien_formada_def)
  define m where "m = multa_al_devolver now (prestamos s ! i)"
  define s' where "s' = snd (devolver_libro now id_u id_l s)"
  have eq: "devolver_libro now id_u id_l s = (Inr m, s')"
    by (simp add: m_def s'_def devolver_libro_con_prestamo [OF i])
  have "prestamos s' = (prestamos s)[i := (prestamos s ! i)\<lparr>devuelto := True, fecha_devolucion := Some now\<rparr>]"
    "devuelto (prestamos s' ! i)" "fecha_devolucion (prestamos s' ! i) = Some now"
    "disponible (libro_objs s' ! libro (prestamos s ! i))"
    "\<forall>t. calcular_multa t (prestamos s' ! i) = Inr m"
    "multas (usuario_objs s' ! usuario (prestamos s ! i))
         = multas (usuario_objs s ! usuario (prestamos s ! i)) + m"
    using il rng
    by (simp_all add: s'_def m_def devolver_libro_con_prestamo [OF i] calcular_multa_tras_devolver)
  with i il pend eq show ?thesis by blast
qed

theorem devolver_libro_cierra_prestamo_witness:
  "bien_formada estado_prestado
   \<and> (\<exists>p \<in> set (prestamos estado_prestado). prestamo_pendiente estado_prestado 2 30 p)
   \<and> devolver_libro diez_dias 2 30 estado_prestado =
       (Inr 1500,
        \<lparr>libro_objs = [\<lparr>id_libro = 30, titulo = (codigos ''1984''), autor = (codigos ''George Orwell''), disponible = True\<rparr>],
         usuario_objs = [\<lparr>id_usuario = 2, nombre = (codigos ''Sebastian''), multas = 1500\<rparr>],
         libros = [0], usuarios = [0],
         prestamos = [\<lparr>usuario = 0, libro = 0, fecha_prestamo = 0, devuelto = True,
                       fecha_devolucion = Some diez_dias\<rparr>]\<rparr>)"
proof -
  have h1: "bien_formada estado_prestado" by (rule bien_formada_prestado)
  have h2: "\<exists>p \<in> set (prestamos estado_prestado). prestamo_pendiente estado_prestado 2 30 p"
    by (simp add: estado_prestado_def prestamo_pendiente_def)
  from devolver_libro_cierra_prestamo [OF h1 h2, of diez_dias] obtain i m s' where
    i: "i < length (prestamos estado_prestado)"
    and eq: "devolver_libro diez_dias 2 30 estado_prestado = (Inr m, s')"
    and ps: "prestamos s' = (prestamos estado_prestado)[i := (prestamos estado_prestado ! i)
               \<lparr>devuelto := True, fecha_devolucion := Some diez_dias\<rparr>]"
    and "\<forall>t. calcular_multa t (prestamos s' ! i) = Inr m"
    by blast
  then have m: "calcular_multa 0 (prestamos s' ! i) = Inr m" by blast
  from i have i0: "i = 0" by (simp add: estado_prestado_def)
  from m have "m = 1500"
    unfolding ps i0
    by (simp add: estado_prestado_def calcular_multa_def timedelta_days_def
          microsegundos_por_dia_def DIAS_MAXIMO_def MULTA_POR_DIA_def diez_dias_def)
  with eq have "fst (devolver_libro diez_dias 2 30 estado_prestado) = Inr 1500" by simp
  moreover have "snd (devolver_libro diez_dias 2 30 estado_prestado) =
        \<lparr>libro_objs = [\<lparr>id_libro = 30, titulo = (codigos ''1984''), autor = (codigos ''George Orwell''), disponible = True\<rparr>],
         usuario_objs = [\<lparr>id_usuario = 2, nombre = (codigos ''Sebastian''), multas = 1500\<rparr>],
         libros = [0], usuarios = [0],
         prestamos = [\<lparr>usuario = 0, libro = 0, fecha_prestamo = 0, devuelto = True,
                       fecha_devolucion = Some diez_dias\<rparr>]\<rparr>"
    by (simp add: estado_prestado_def operaciones_defs calcular_multa_def timedelta_days_def
          microsegundos_por_dia_def DIAS_MAXIMO_def MULTA_POR_DIA_def diez_dias_def)
  ultimately show ?thesis using h1 h2 by (simp add: prod_eq_iff)
qed

text \<open>
  C4. In a state where at most one loan that is not returned matches the user id and
  the book id, a second \<open>devolver_libro\<close> right after the first finds no such loan,
  returns 0 and changes nothing, so no balance grows.
\<close>

theorem devolver_libro_dos_veces:
  assumes "length (filter (prestamo_pendiente s id_u id_l) (prestamos s)) \<le> 1"
  shows "first_index (prestamo_pendiente (snd (devolver_libro now1 id_u id_l s)) id_u id_l)
           (prestamos (snd (devolver_libro now1 id_u id_l s))) = None
     \<and> devolver_libro now2 id_u id_l (snd (devolver_libro now1 id_u id_l s))
         = (Inr 0, snd (devolver_libro now1 id_u id_l s))"
proof -
  define s1 where "s1 = snd (devolver_libro now1 id_u id_l s)"
  have "first_index (prestamo_pendiente s1 id_u id_l) (prestamos s1) = None"
  proof (cases "first_index (prestamo_pendiente s id_u id_l) (prestamos s)")
    case None
    then show ?thesis by (simp add: s1_def devolver_libro_sin_prestamo)
  next
    case (Some i)
    from first_index_Some [OF Some]
    have il: "i < length (prestamos s)" and pend: "prestamo_pendiente s id_u id_l (prestamos s ! i)"
      by simp_all
    have ps1: "prestamos s1 = (prestamos s)[i := (prestamos s ! i)\<lparr>devuelto := True, fecha_devolucion := Some now1\<rparr>]"
      by (simp add: s1_def devolver_libro_con_prestamo [OF Some])
    have pp: "prestamo_pendiente s1 id_u id_l q = prestamo_pendiente s id_u id_l q" for q
      by (simp add: s1_def devolver_libro_con_prestamo [OF Some] prestamo_pendiente_tras_devolver)
    have "\<not> prestamo_pendiente s1 id_u id_l q" if "q \<in> set (prestamos s1)" for q
    proof -
      from that obtain j where j: "j < length (prestamos s)" "q = prestamos s1 ! j"
        by (auto simp: in_set_conv_nth ps1)
      show ?thesis
      proof (cases "j = i")
        case True
        with j il show ?thesis by (simp add: ps1 prestamo_pendiente_def)
      next
        case False
        with j have q: "q = prestamos s ! j" by (simp add: ps1)
        from filter_uno_indices [OF assms il j(1) pend] False
        have "\<not> prestamo_pendiente s id_u id_l (prestamos s ! j)" by auto
        with q pp show ?thesis by simp
      qed
    qed
    then show ?thesis by (simp add: first_index_None)
  qed
  then show ?thesis
    unfolding s1_def [symmetric] by (simp add: devolver_libro_sin_prestamo)
qed

theorem devolver_libro_dos_veces_witness:
  "length (filter (prestamo_pendiente estado_prestado 2 30) (prestamos estado_prestado)) = 1
   \<and> fst (devolver_libro diez_dias 2 30 estado_prestado) = Inr 1500
   \<and> devolver_libro (2 * diez_dias) 2 30 (snd (devolver_libro diez_dias 2 30 estado_prestado))
       = (Inr 0, snd (devolver_libro diez_dias 2 30 estado_prestado))"
proof -
  have h: "length (filter (prestamo_pendiente estado_prestado 2 30) (prestamos estado_prestado)) = 1"
    by (simp add: estado_prestado_def prestamo_pendiente_def)
  then have "length (filter (prestamo_pendiente estado_prestado 2 30) (prestamos estado_prestado)) \<le> 1"
    by simp
  from devolver_libro_dos_veces [OF this, of diez_dias "2 * diez_dias"]
  have "devolver_libro (2 * diez_dias) 2 30 (snd (devolver_libro diez_dias 2 30 estado_prestado))
       = (Inr 0, snd (devolver_libro diez_dias 2 30 estado_prestado))" ..
  moreover have "fst (devolver_libro diez_dias 2 30 estado_prestado) = Inr 1500"
    by (simp add: estado_prestado_def operaciones_defs calcular_multa_def timedelta_days_def
          microsegundos_por_dia_def DIAS_MAXIMO_def MULTA_POR_DIA_def diez_dias_def)
  ultimately show ?thesis using h by simp
qed

theorem devolver_libro_dos_veces_con_multa:
  "ejecutar_todas (operaciones_dos_ejemplares @ [PrestarLibro 0 2 30, PrestarLibro 0 2 30])
       biblioteca_vacia = Some estado_dos_prestamos
   \<and> fst (devolver_libro diez_dias 2 30 estado_dos_prestamos) = Inr 1500
   \<and> multas (usuario_objs (snd (devolver_libro diez_dias 2 30 estado_dos_prestamos)) ! 0) = 1500
   \<and> fst (devolver_libro diez_dias 2 30 (snd (devolver_libro diez_dias 2 30 estado_dos_prestamos)))
       = Inr 1500
   \<and> multas (usuario_objs (snd (devolver_libro diez_dias 2 30
         (snd (devolver_libro diez_dias 2 30 estado_dos_prestamos)))) ! 0) = 3000"
  by (simp add: operaciones_dos_ejemplares_def operaciones_ejemplo_def estado_dos_prestamos_def
        operaciones_defs calcular_multa_def timedelta_days_def microsegundos_por_dia_def
        DIAS_MAXIMO_def MULTA_POR_DIA_def diez_dias_def)

section \<open>One active loan for each book\<close>

lemma invariante_vacia: "invariante biblioteca_vacia"
  by (simp add: invariante_def bien_formada_def biblioteca_vacia_def)

lemma invariante_prestar_libro:
  assumes "invariante s"
  shows "invariante (snd (prestar_libro now id_u id_l s))"
proof (cases "fst (prestar_libro now id_u id_l s)")
  case None
  with assms show ?thesis by (simp add: prestar_libro_None_estado)
next
  case (Some p0)
  then obtain u l where
    u: "find (\<lambda>u. id_usuario (usuario_objs s ! u) = id_u) (usuarios s) = Some u" and
    l: "find (\<lambda>l. id_libro (libro_objs s ! l) = id_l \<and> disponible (libro_objs s ! l)) (libros s) = Some l"
    by (auto simp: prestar_libro_def Let_def split: option.splits)
  define p where "p = Prestamo_init u l None now"
  define s' where "s' = snd (prestar_libro now id_u id_l s)"
  have s': "libro_objs s' = (libro_objs s)[l := (libro_objs s ! l)\<lparr>disponible := False\<rparr>]"
    "prestamos s' = prestamos s @ [p]"
    by (simp_all add: s'_def p_def prestar_libro_Some [OF u l])
  have pf: "libro p = l" "\<not> devuelto p"
    by (simp_all add: p_def Prestamo_init_def)
  from assms have wf: "bien_formada s" by (simp add: invariante_def)
  from l have lp: "l \<in> set (libros s)" "disponible (libro_objs s ! l)"
    by (auto dest: find_Some_props)
  with wf have ll: "l < length (libro_objs s)" by (simp add: bien_formada_def)
  have viejo: "libro (prestamos s ! i) \<noteq> l"
    if "i < length (prestamos s)" "\<not> devuelto (prestamos s ! i)" for i
    using assms that lp(2) by (auto simp: invariante_def)
  have a: "\<not> disponible (libro_objs s' ! libro (prestamos s' ! i))"
    if "i < length (prestamos s')" "\<not> devuelto (prestamos s' ! i)" for i
  proof (cases "i < length (prestamos s)")
    case True
    with that have act: "\<not> devuelto (prestamos s ! i)" by (simp add: s' nth_append)
    with assms True have "\<not> disponible (libro_objs s ! libro (prestamos s ! i))"
      by (simp add: invariante_def)
    with True viejo [OF True act] show ?thesis by (simp add: s' nth_append)
  next
    case False
    with that have "i = length (prestamos s)" by (simp add: s')
    with ll pf show ?thesis by (simp add: s')
  qed
  have b: "i = j"
    if "i < length (prestamos s')" "j < length (prestamos s')"
       "\<not> devuelto (prestamos s' ! i)" "\<not> devuelto (prestamos s' ! j)"
       "libro (prestamos s' ! i) = libro (prestamos s' ! j)" for i j
  proof (cases "i < length (prestamos s)"; cases "j < length (prestamos s)")
    assume "i < length (prestamos s)" "j < length (prestamos s)"
    with that assms show ?thesis by (simp add: s' nth_append invariante_def)
  next
    assume ij: "i < length (prestamos s)" "\<not> j < length (prestamos s)"
    with that have "j = length (prestamos s)" by (simp add: s')
    with ij that pf viejo [of i] show ?thesis by (simp add: s' nth_append)
  next
    assume ij: "\<not> i < length (prestamos s)" "j < length (prestamos s)"
    with that have "i = length (prestamos s)" by (simp add: s')
    with ij that pf viejo [of j] show ?thesis by (simp add: s' nth_append)
  next
    assume "\<not> i < length (prestamos s)" "\<not> j < length (prestamos s)"
    with that show ?thesis by (simp add: s')
  qed
  from bien_formada_prestar_libro [OF wf, of now id_u id_l] a b
  show ?thesis
    unfolding invariante_def s'_def [symmetric] by blast
qed

lemma invariante_devolver_libro:
  assumes "invariante s"
  shows "invariante (snd (devolver_libro now id_u id_l s))"
proof (cases "first_index (prestamo_pendiente s id_u id_l) (prestamos s)")
  case None
  with assms show ?thesis by (simp add: devolver_libro_sin_prestamo)
next
  case (Some k)
  define s' where "s' = snd (devolver_libro now id_u id_l s)"
  from first_index_Some [OF Some]
  have k: "k < length (prestamos s)" "\<not> devuelto (prestamos s ! k)"
    by (simp_all add: prestamo_pendiente_def)
  have s': "libro_objs s' = (libro_objs s)[libro (prestamos s ! k) :=
          (libro_objs s ! libro (prestamos s ! k))\<lparr>disponible := True\<rparr>]"
    "prestamos s' = (prestamos s)[k := (prestamos s ! k)\<lparr>devuelto := True, fecha_devolucion := Some now\<rparr>]"
    by (simp_all add: s'_def devolver_libro_con_prestamo [OF Some])
  from assms have wf: "bien_formada s" by (simp add: invariante_def)
  have otro: "i \<noteq> k \<and> \<not> devuelto (prestamos s ! i) \<and> prestamos s' ! i = prestamos s ! i
              \<and> libro (prestamos s ! i) \<noteq> libro (prestamos s ! k)"
    if "i < length (prestamos s')" "\<not> devuelto (prestamos s' ! i)" for i
  proof -
    from that k have ik: "i \<noteq> k" by (auto simp: s')
    with that have act: "\<not> devuelto (prestamos s ! i)" "prestamos s' ! i = prestamos s ! i"
      by (simp_all add: s')
    from that have "i < length (prestamos s)" by (simp add: s')
    with assms k act ik have "libro (prestamos s ! i) \<noteq> libro (prestamos s ! k)"
      by (auto simp: invariante_def)
    with ik act show ?thesis by simp
  qed
  have a: "\<not> disponible (libro_objs s' ! libro (prestamos s' ! i))"
    if "i < length (prestamos s')" "\<not> devuelto (prestamos s' ! i)" for i
  proof -
    from that have "i < length (prestamos s)" by (simp add: s')
    with assms otro [OF that] have "\<not> disponible (libro_objs s ! libro (prestamos s ! i))"
      by (simp add: invariante_def)
    with otro [OF that] show ?thesis by (simp add: s')
  qed
  have b: "i = j"
    if "i < length (prestamos s')" "j < length (prestamos s')"
       "\<not> devuelto (prestamos s' ! i)" "\<not> devuelto (prestamos s' ! j)"
       "libro (prestamos s' ! i) = libro (prestamos s' ! j)" for i j
  proof -
    from that have "i < length (prestamos s)" "j < length (prestamos s)" by (simp_all add: s')
    with assms otro [OF that(1,3)] otro [OF that(2,4)] that(5) show ?thesis
      by (simp add: invariante_def)
  qed
  from bien_formada_devolver_libro [OF wf, of now id_u id_l] a b
  show ?thesis
    unfolding invariante_def s'_def [symmetric] by blast
qed

lemma invariante_ejecutar:
  assumes "invariante s" and "ejecutar x s = Some s'"
  shows "invariante s'"
proof (cases x)
  case (NuevoUsuario i n)
  with assms show ?thesis
    by (auto simp: Usuario_init_def invariante_def bien_formada_def less_Suc_eq)
next
  case (NuevoLibro i t a d)
  with assms have s': "s' = s\<lparr>libro_objs := libro_objs s @ [\<lparr>id_libro = i, titulo = t, autor = a, disponible = d\<rparr>]\<rparr>"
    by (simp add: Libro_init_def)
  from assms(1) have "libro (prestamos s ! k) < length (libro_objs s)" if "k < length (prestamos s)" for k
    using that by (simp add: invariante_def bien_formada_def)
  with assms(1) show ?thesis
    unfolding s' by (auto simp: invariante_def bien_formada_def less_Suc_eq nth_append)
next
  case (RegistrarUsuario u)
  with assms show ?thesis
    by (auto simp: registrar_usuario_def invariante_def bien_formada_def split: if_splits)
next
  case (AgregarLibro l)
  with assms show ?thesis
    by (auto simp: agregar_libro_def invariante_def bien_formada_def split: if_splits)
next
  case (BuscarLibro c)
  with assms show ?thesis by simp
next
  case (PrestarLibro now id_u id_l)
  with assms show ?thesis by (auto simp: invariante_prestar_libro)
next
  case (DevolverLibro now id_u id_l)
  with assms show ?thesis by (auto simp: invariante_devolver_libro)
qed

lemma invariante_ejecutar_todas:
  "invariante s \<Longrightarrow> ejecutar_todas xs s = Some s' \<Longrightarrow> invariante s'"
proof (induction xs arbitrary: s)
  case Nil
  then show ?case by simp
next
  case (Cons x xs)
  then show ?case
    by (auto split: option.splits dest: invariante_ejecutar)
qed

text \<open>
  C6. In every state that a run of operations reaches from the empty library, each
  book record has at most one loan that is not returned.
\<close>

theorem un_prestamo_activo_por_libro:
  assumes "ejecutar_todas xs biblioteca_vacia = Some s"
  shows "length (filter (\<lambda>p. \<not> devuelto p \<and> libro p = l) (prestamos s)) \<le> 1"
proof -
  from invariante_ejecutar_todas [OF invariante_vacia assms]
  have "\<forall>i < length (prestamos s). \<forall>j < length (prestamos s).
          \<not> devuelto (prestamos s ! i) \<and> \<not> devuelto (prestamos s ! j)
          \<and> libro (prestamos s ! i) = libro (prestamos s ! j) \<longrightarrow> i = j"
    by (simp add: invariante_def)
  then have "\<forall>i < length (prestamos s). \<forall>j < length (prestamos s).
          (\<not> devuelto (prestamos s ! i) \<and> libro (prestamos s ! i) = l)
          \<and> (\<not> devuelto (prestamos s ! j) \<and> libro (prestamos s ! j) = l) \<longrightarrow> i = j"
    by simp
  then show ?thesis by (rule filter_a_lo_mas_uno)
qed

theorem un_prestamo_activo_por_libro_witness:
  "ejecutar_todas (operaciones_ejemplo @ [PrestarLibro 0 2 30]) biblioteca_vacia = Some estado_prestado
   \<and> length (filter (\<lambda>p. \<not> devuelto p \<and> libro p = 0) (prestamos estado_prestado)) \<le> 1
   \<and> filter (\<lambda>p. \<not> devuelto p \<and> libro p = 0) (prestamos estado_prestado) \<noteq> []"
proof -
  have "filter (\<lambda>p. \<not> devuelto p \<and> libro p = 0) (prestamos estado_prestado) \<noteq> []"
    by (simp add: estado_prestado_def)
  with un_prestamo_activo_por_libro [OF ejecutar_prestado, of 0] ejecutar_prestado
  show ?thesis by simp
qed

section \<open>Searching\<close>

lemma str_in_iff: "str_in sub t \<longleftrightarrow> (\<exists>i \<le> length t. take (length sub) (drop i t) = sub)"
proof (induction t)
  case Nil
  then show ?case by auto
next
  case (Cons c cs)
  have "(\<exists>i \<le> length (c # cs). take (length sub) (drop i (c # cs)) = sub)
        \<longleftrightarrow> take (length sub) (c # cs) = sub \<or> (\<exists>i \<le> length cs. take (length sub) (drop i cs) = sub)"
    (is "?L \<longleftrightarrow> ?A \<or> ?B")
  proof
    assume ?L
    then obtain i where i: "i \<le> length (c # cs)" "take (length sub) (drop i (c # cs)) = sub" by blast
    show "?A \<or> ?B"
    proof (cases i)
      case 0
      with i show ?thesis by simp
    next
      case (Suc k)
      with i show ?thesis by auto
    qed
  next
    assume "?A \<or> ?B"
    then show ?L
    proof
      assume ?A
      then have "take (length sub) (drop 0 (c # cs)) = sub" by simp
      then show ?L by blast
    next
      assume ?B
      then obtain i where "i \<le> length cs" "take (length sub) (drop i cs) = sub" by blast
      then have "Suc i \<le> length (c # cs)" "take (length sub) (drop (Suc i) (c # cs)) = sub" by simp_all
      then show ?L by blast
    qed
  qed
  with Cons.IH show ?case by simp
qed

lemma map_eq_list_all2: "map f xs = map f ys \<longleftrightarrow> list_all2 (\<lambda>a b. f a = f b) xs ys"
proof -
  have "map f xs = map f ys \<longleftrightarrow> list_all2 (=) (map f xs) (map f ys)"
    by (simp add: list.rel_eq)
  then show ?thesis by (simp add: list.rel_map)
qed

lemma in_zip_upt:
  "(a, b) \<in> set (zip [m..<n] [k..<l]) \<longleftrightarrow> (\<exists>i. i < n - m \<and> i < l - k \<and> a = m + i \<and> b = k + i)"
proof
  assume "(a, b) \<in> set (zip [m..<n] [k..<l])"
  then obtain i where "i < n - m" "i < l - k" "[m..<n] ! i = a" "[k..<l] ! i = b"
    by (auto simp: in_set_zip)
  then show "\<exists>i. i < n - m \<and> i < l - k \<and> a = m + i \<and> b = k + i"
    by (intro exI [of _ i]) (simp add: less_diff_conv add.commute)
next
  assume "\<exists>i. i < n - m \<and> i < l - k \<and> a = m + i \<and> b = k + i"
  then obtain i where i: "i < n - m" "i < l - k" "a = m + i" "b = k + i" by blast
  then have "[m..<n] ! i = a" "[k..<l] ! i = b"
    by (simp_all add: less_diff_conv add.commute)
  with i(1,2) show "(a, b) \<in> set (zip [m..<n] [k..<l])"
    by (auto simp: in_set_zip intro!: exI [of _ i])
qed

lemma pares_de_letras_iff:
  "(a, b) \<in> set pares_de_letras \<longleftrightarrow>
     ((65 \<le> a \<and> a \<le> 90) \<or> (192 \<le> a \<and> a \<le> 222 \<and> a \<noteq> 215)) \<and> b = a + 32"
proof -
  have eq: "pares_de_letras = zip [65..<91] [97..<123] @ zip [192..<215] [224..<247] @ zip [216..<223] [248..<255]"
    unfolding pares_de_letras_def by (subst zip_append, simp)+ simp
  have "(a, b) \<in> set pares_de_letras \<longleftrightarrow>
      (a, b) \<in> set (zip [65..<91] [97..<123]) \<or> (a, b) \<in> set (zip [192..<215] [224..<247])
      \<or> (a, b) \<in> set (zip [216..<223] [248..<255])"
    unfolding eq by (simp only: set_append Un_iff)
  also have "\<dots> \<longleftrightarrow> (\<exists>i<26. a = 65 + i \<and> b = 97 + i) \<or> (\<exists>i<23. a = 192 + i \<and> b = 224 + i)
      \<or> (\<exists>i<7. a = 216 + i \<and> b = 248 + i)"
    unfolding in_zip_upt by simp
  also have "\<dots> \<longleftrightarrow> ((65 \<le> a \<and> a \<le> 90) \<or> (192 \<le> a \<and> a \<le> 222 \<and> a \<noteq> 215)) \<and> b = a + 32"
    by presburger
  finally show ?thesis .
qed

text \<open>Below 256 the lowercase mapping sends two code points to the same one exactly
  when they are the same up to case.\<close>

lemma minuscula_latin1_eq_iff:
  "minuscula_latin1 a = minuscula_latin1 b \<longleftrightarrow> mismo_caracter a b"
  unfolding mismo_caracter_def pares_de_letras_iff minuscula_latin1_def
  by (auto split: if_splits)

lemma do_lower_latin1:
  "\<forall>c \<in> set s. c < 256 \<Longrightarrow> do_lower db antes s = map minuscula_latin1 s"
  by (induction s arbitrary: antes) (simp_all add: lower_ucs4_def)

lemma lower_latin1: "\<forall>c \<in> set s. c < 256 \<Longrightarrow> lower db s = map minuscula_latin1 s"
  by (simp add: lower_def do_lower_latin1)

lemma str_in_minuscula_latin1:
  "str_in (map minuscula_latin1 q) (map minuscula_latin1 t) \<longleftrightarrow> subcadena_sin_mayusculas q t"
proof -
  have "take (length (map minuscula_latin1 q)) (drop i (map minuscula_latin1 t)) = map minuscula_latin1 q
        \<longleftrightarrow> list_all2 mismo_caracter q (take (length q) (drop i t))" for i
  proof -
    have "take (length (map minuscula_latin1 q)) (drop i (map minuscula_latin1 t))
          = map minuscula_latin1 (take (length q) (drop i t))"
      by (simp add: take_map drop_map)
    then have "take (length (map minuscula_latin1 q)) (drop i (map minuscula_latin1 t)) = map minuscula_latin1 q
        \<longleftrightarrow> map minuscula_latin1 q = map minuscula_latin1 (take (length q) (drop i t))"
      by auto
    then show ?thesis
      by (simp add: map_eq_list_all2 minuscula_latin1_eq_iff)
  qed
  then show ?thesis
    by (simp add: str_in_iff subcadena_sin_mayusculas_def)
qed

text \<open>
  Where the query and every title and author of the catalog are made of code points
  below 256, \<open>buscar_libro\<close> returns, in catalog order, the catalog books whose title
  or author has the query as a case-insensitive substring, whatever the rest of the
  database says.
\<close>

lemma buscar_libro_latin1:
  assumes "\<forall>c \<in> set q. c < 256"
    and "\<forall>l \<in> set (libros s). (\<forall>c \<in> set (titulo (libro_objs s ! l)). c < 256)
                              \<and> (\<forall>c \<in> set (autor (libro_objs s ! l)). c < 256)"
  shows "buscar_libro db q s =
     filter (\<lambda>l. subcadena_sin_mayusculas q (titulo (libro_objs s ! l))
               \<or> subcadena_sin_mayusculas q (autor (libro_objs s ! l))) (libros s)"
  unfolding buscar_libro_def
proof (rule filter_cong [OF refl])
  fix l
  assume "l \<in> set (libros s)"
  with assms(2) have "\<forall>c \<in> set (titulo (libro_objs s ! l)). c < 256"
    "\<forall>c \<in> set (autor (libro_objs s ! l)). c < 256"
    by simp_all
  with assms(1) show "(str_in (lower db q) (lower db (titulo (libro_objs s ! l)))
          \<or> str_in (lower db q) (lower db (autor (libro_objs s ! l))))
      = (subcadena_sin_mayusculas q (titulo (libro_objs s ! l))
          \<or> subcadena_sin_mayusculas q (autor (libro_objs s ! l)))"
    by (simp add: lower_latin1 str_in_minuscula_latin1)
qed

lemma lower_ejemplos:
  "lower db (codigos ''orwell'') = codigos ''orwell''"
  "lower db (codigos ''ORWELL'') = codigos ''orwell''"
  "lower db (codigos ''1984'') = codigos ''1984''"
  "lower db (codigos ''George Orwell'') = codigos ''george orwell''"
  by (simp_all add: lower_def lower_ucs4_def minuscula_latin1_def codigos_def)

text \<open>A book titled 1984 by George Orwell is found by orwell, ORWELL and 1984.\<close>

lemma buscar_libro_1984:
  assumes "l \<in> set (libros s)" and "titulo (libro_objs s ! l) = codigos ''1984''"
    and "autor (libro_objs s ! l) = codigos ''George Orwell''"
  shows "l \<in> set (buscar_libro db (codigos ''orwell'') s)"
    and "l \<in> set (buscar_libro db (codigos ''ORWELL'') s)"
    and "l \<in> set (buscar_libro db (codigos ''1984'') s)"
proof -
  have "str_in (codigos ''orwell'') (codigos ''george orwell'')"
    "str_in (codigos ''1984'') (codigos ''1984'')"
    by (simp_all add: codigos_def)
  with assms show "l \<in> set (buscar_libro db (codigos ''orwell'') s)"
    "l \<in> set (buscar_libro db (codigos ''ORWELL'') s)"
    "l \<in> set (buscar_libro db (codigos ''1984'') s)"
    by (simp_all add: buscar_libro_def lower_ejemplos)
qed

text \<open>
  C8. A catalog book whose title ends in the capital sigma is not found by the query
  made of that sigma, although the title holds the query as it stands: in the title the
  sigma is lowered to the final sigma 962, alone it is lowered to 963. So
  \<open>buscar_libro\<close> does not return every book whose title has the query as a
  case-insensitive substring.
\<close>

theorem buscar_libro_sigma_final:
  "ejecutar_todas [NuevoLibro 1 [927, 916, 927, 931] (codigos ''anon'') True, AgregarLibro 0]
       biblioteca_vacia = Some estado_griego
   \<and> titulo (libro_objs estado_griego ! 0) = [927, 916, 927, 931]
   \<and> str_in [931] [927, 916, 927, 931]
   \<and> subcadena_sin_mayusculas [931] [927, 916, 927, 931]
   \<and> lower ucd_griego [931] = [963]
   \<and> lower ucd_griego [927, 916, 927, 931] = [959, 948, 959, 962]
   \<and> buscar_libro ucd_griego [931] estado_griego = []"
proof -
  have a: "ejecutar_todas [NuevoLibro 1 [927, 916, 927, 931] (codigos ''anon'') True, AgregarLibro 0]
       biblioteca_vacia = Some estado_griego"
    by (simp add: estado_griego_def operaciones_defs)
  have b: "str_in [931] [927, 916, 927, 931]"
    by simp
  have "3 \<le> length [927, 916, 927, 931::nat]
      \<and> list_all2 mismo_caracter [931] (take (length [931::nat]) (drop 3 [927, 916, 927, 931]))"
    by (simp add: mismo_caracter_def)
  then have c: "subcadena_sin_mayusculas [931] [927, 916, 927, 931]"
    unfolding subcadena_sin_mayusculas_def by blast
  have d: "lower ucd_griego [931] = [963]"
    "lower ucd_griego [927, 916, 927, 931] = [959, 948, 959, 962]"
    "lower ucd_griego (codigos ''anon'') = codigos ''anon''"
    by (simp_all add: lower_def lower_ucs4_def handle_capital_sigma_def ucd_griego_def
          minuscula_latin1_def codigos_def)
  have e: "buscar_libro ucd_griego [931] estado_griego = []"
    by (simp add: buscar_libro_def estado_griego_def d) (simp add: codigos_def)
  from a b c d e show ?thesis by (simp add: estado_griego_def)
qed

lemma libros_ejecutar: "ejecutar x s = Some s' \<Longrightarrow> libros s' = libros s @ agregados [x]"
proof (cases x)
  case (PrestarLibro now id_u id_l)
  assume "ejecutar x s = Some s'"
  with PrestarLibro show ?thesis
    by (auto simp: prestar_libro_def Let_def split: option.splits)
next
  case (DevolverLibro now id_u id_l)
  assume "ejecutar x s = Some s'"
  with DevolverLibro show ?thesis
    by (cases "first_index (prestamo_pendiente s id_u id_l) (prestamos s)")
       (auto simp: devolver_libro_sin_prestamo devolver_libro_con_prestamo)
qed (auto simp: Usuario_init_def Libro_init_def registrar_usuario_def agregar_libro_def
      split: if_splits)

lemma agregados_Cons: "agregados (x # xs) = agregados [x] @ agregados xs"
  by (cases x) simp_all

lemma libros_ejecutar_todas:
  "ejecutar_todas xs s = Some s' \<Longrightarrow> libros s' = libros s @ agregados xs"
proof (induction xs arbitrary: s)
  case Nil
  then show ?case by simp
next
  case (Cons x xs)
  from Cons.prems obtain s1 where e: "ejecutar x s = Some s1" and r: "ejecutar_todas xs s1 = Some s'"
    by (auto split: option.splits)
  from Cons.IH [OF r] libros_ejecutar [OF e] show ?case
    by (simp add: agregados_Cons [of x xs])
qed

text \<open>
  C9. \<open>buscar_libro\<close> with the empty string returns the whole catalog in its order;
  after a run of operations from the empty library that is every book handed to
  \<open>agregar_libro\<close>, in the order of the calls.
\<close>

theorem buscar_libro_cadena_vacia:
  "buscar_libro db [] s = libros s
   \<and> (\<forall>xs s'. ejecutar_todas xs s = Some s' \<longrightarrow> buscar_libro db [] s' = libros s @ agregados xs)
   \<and> (\<forall>xs s'. ejecutar_todas xs biblioteca_vacia = Some s' \<longrightarrow> buscar_libro db [] s' = agregados xs)"
proof -
  have a: "buscar_libro db [] t = libros t" for t
  proof -
    have "str_in [] c" for c by (cases c) simp_all
    then show ?thesis by (simp add: buscar_libro_def lower_def)
  qed
  have b: "buscar_libro db [] s' = libros t @ agregados xs" if "ejecutar_todas xs t = Some s'" for xs s' t
    using libros_ejecutar_todas [OF that] by (simp add: a)
  from a b [of _ s] b [of _ biblioteca_vacia] show ?thesis
    by (simp add: biblioteca_vacia_def)
qed

theorem buscar_libro_cadena_vacia_witness:
  "ejecutar_todas operaciones_dos_ejemplares biblioteca_vacia = Some estado_dos_ejemplares
   \<and> buscar_libro ucd_griego [] estado_dos_ejemplares = [0, 1]"
proof -
  have "agregados operaciones_dos_ejemplares = [0, 1]"
    by (simp add: operaciones_dos_ejemplares_def operaciones_ejemplo_def)
  with buscar_libro_cadena_vacia [of ucd_griego biblioteca_vacia, THEN conjunct2, THEN conjunct2,
      rule_format, OF ejecutar_dos_ejemplares] ejecutar_dos_ejemplares
  show ?thesis by simp
qed

end
